theory Spec2Isabelle
  imports Main
begin

section \<open>Generic vector-based matrix evaluation (matrix\_vector\_eval.h)\<close>

text \<open>
  The header selects, per expression type, an evaluator class and a loop, all by template
  specialisation, and then runs the loop.  The development follows the header in two
  layers.

  \<^item> The compile-time layer (policy tags, the cost model, the evaluator map, the default
    policy) is a set of functions over a descriptor of the expression type.  A template
    that cannot be instantiated is a value of \<open>build_error\<close>.
  \<^item> The run-time layer (the evaluator classes and the two loop families) works on a
    store of cells addressed by integers, since the evaluators hold raw pointers
    (\<^verbatim>\<open>const T *m_data\<close>) and the loops write through a raw pointer
    (\<^verbatim>\<open>T *pd\<close>).  Source and destination live in the same store.
\<close>

subsection \<open>Policy types\<close>

datatype means = by_scalars | by_simd

datatype org = as_linear_vec | per_column

text \<open>\<^verbatim>\<open>vector_eval_policy<Org, Means>\<close> is an empty tag struct carrying two types.\<close>

record vector_eval_policy =
  policy_org :: org
  policy_means :: means

subsection \<open>What the header reads off an expression type\<close>

text \<open>
  The traits come from \<^verbatim>\<open>matrix_properties.h\<close>, which the header includes; they are taken
  as given, one field per trait.  \<open>is_const_matrix\<close> says that the type is an instance of
  \<^verbatim>\<open>const_matrix<T, CTRows, CTCols>\<close>, the pattern of the two explicit specialisations of
  \<^verbatim>\<open>vector_eval\<close>.  \<open>ct_rows\<close> is \<^verbatim>\<open>ct_rows<Expr>::value\<close>, an \<^verbatim>\<open>int\<close>: a compile-time
  row count, or the marker \<^verbatim>\<open>DynamicDim\<close> when the row count is only known at run time.
  The value of \<^verbatim>\<open>DynamicDim\<close> is declared outside this header and is a parameter
  wherever it is used.
\<close>

record xpr_type =
  is_const_matrix :: bool
  is_dense_mat :: bool
  ct_has_continuous_layout :: bool
  ct_rows :: int
  ct_cols :: int

subsection \<open>The evaluator classes, as types\<close>

datatype evaluator_class =
    continuous_linear_evaluator
  | dense_percol_evaluator
  | const_linear_evaluator
  | const_percol_evaluator
  | cached_linear_evaluator
  | cached_percol_evaluator

text \<open>
  \<^verbatim>\<open>is_linear_vector_evaluator\<close> and \<^verbatim>\<open>is_percol_vector_evaluator\<close>: which interface a
  class derives from.
\<close>

fun is_linear_vector_evaluator :: "evaluator_class \<Rightarrow> bool" where
  "is_linear_vector_evaluator continuous_linear_evaluator = True"
| "is_linear_vector_evaluator const_linear_evaluator = True"
| "is_linear_vector_evaluator cached_linear_evaluator = True"
| "is_linear_vector_evaluator dense_percol_evaluator = False"
| "is_linear_vector_evaluator const_percol_evaluator = False"
| "is_linear_vector_evaluator cached_percol_evaluator = False"

fun is_percol_vector_evaluator :: "evaluator_class \<Rightarrow> bool" where
  "is_percol_vector_evaluator dense_percol_evaluator = True"
| "is_percol_vector_evaluator const_percol_evaluator = True"
| "is_percol_vector_evaluator cached_percol_evaluator = True"
| "is_percol_vector_evaluator continuous_linear_evaluator = False"
| "is_percol_vector_evaluator const_linear_evaluator = False"
| "is_percol_vector_evaluator cached_linear_evaluator = False"

subsection \<open>Build failures\<close>

text \<open>
  What the compiler reports when a specialisation cannot be used: a template that is
  declared but never defined, a member that the chosen specialisation does not have, a
  failed \<^verbatim>\<open>static_assert\<close>, a constructor that does not accept the argument, a
  function that does not accept the evaluator.
\<close>

datatype build_error =
    Incomplete_type
  | No_member string
  | Static_assertion_failed
  | No_matching_constructor
  | No_matching_function

subsection \<open>Evaluator map and cost model\<close>

definition VEC_EVAL_CACHE_COST :: int where
  "VEC_EVAL_CACHE_COST = 1000"

definition SHORTVEC_LENGTH_THRESHOLD :: int where
  "SHORTVEC_LENGTH_THRESHOLD = 4"

definition SHORTVEC_PERCOL_COST :: int where
  "SHORTVEC_PERCOL_COST = 200"

text \<open>
  The static members of one specialisation of \<^verbatim>\<open>generic_vector_eval\<close> or
  \<^verbatim>\<open>vector_eval\<close>.  A member that the specialisation does not declare is \<open>None\<close>.
\<close>

record eval_members =
  evaluator_type :: evaluator_class
  cost :: "int option"
  normal_cost :: "int option"
  shortv_cost :: "int option"

text \<open>\<^verbatim>\<open>generic_vector_eval<Expr, as_linear_vec, by_scalars>\<close>\<close>

definition linear_can_direct :: "xpr_type \<Rightarrow> bool" where
  "linear_can_direct E = (is_dense_mat E \<and> ct_has_continuous_layout E)"

definition generic_linear :: "xpr_type \<Rightarrow> eval_members" where
  "generic_linear E =
     \<lparr> evaluator_type =
         (if linear_can_direct E then continuous_linear_evaluator
          else cached_linear_evaluator),
       cost = Some (if linear_can_direct E then 0 else VEC_EVAL_CACHE_COST),
       normal_cost = None,
       shortv_cost = None \<rparr>"

text \<open>\<^verbatim>\<open>generic_vector_eval<Expr, per_column, by_scalars>\<close>\<close>

definition percol_can_direct :: "xpr_type \<Rightarrow> bool" where
  "percol_can_direct E = is_dense_mat E"

definition has_short_col :: "xpr_type \<Rightarrow> bool" where
  "has_short_col E = (ct_rows E < SHORTVEC_LENGTH_THRESHOLD)"

definition percol_normal_cost :: "xpr_type \<Rightarrow> int" where
  "percol_normal_cost E = (if percol_can_direct E then 0 else VEC_EVAL_CACHE_COST)"

definition percol_shortv_cost :: "xpr_type \<Rightarrow> int" where
  "percol_shortv_cost E = SHORTVEC_PERCOL_COST + percol_normal_cost E"

definition generic_percol :: "xpr_type \<Rightarrow> eval_members" where
  "generic_percol E =
     \<lparr> evaluator_type =
         (if percol_can_direct E then dense_percol_evaluator
          else cached_percol_evaluator),
       cost = Some (if has_short_col E then percol_shortv_cost E
                    else percol_normal_cost E),
       normal_cost = Some (percol_normal_cost E),
       shortv_cost = Some (percol_shortv_cost E) \<rparr>"

text \<open>
  \<^verbatim>\<open>generic_vector_eval\<close> is declared for every \<open>Org\<close> and \<open>Means\<close> and defined for
  \<^verbatim>\<open>by_scalars\<close> only.
\<close>

fun generic_vector_eval :: "xpr_type \<Rightarrow> org \<Rightarrow> means \<Rightarrow> build_error + eval_members" where
  "generic_vector_eval E as_linear_vec by_scalars = Inr (generic_linear E)"
| "generic_vector_eval E per_column by_scalars = Inr (generic_percol E)"
| "generic_vector_eval E ogn by_simd = Inl Incomplete_type"

text \<open>Reading a static member of a specialisation.\<close>

definition member :: "string \<Rightarrow> (eval_members \<Rightarrow> int option) \<Rightarrow>
    build_error + eval_members \<Rightarrow> build_error + int" where
  "member name sel S =
     (case S of
        Inl e \<Rightarrow> Inl e
      | Inr m \<Rightarrow> (case sel m of None \<Rightarrow> Inl (No_member name) | Some c \<Rightarrow> Inr c))"

text \<open>
  \<^verbatim>\<open>vector_eval<Expr, as_linear_vec, Means>\<close> forwards \<^verbatim>\<open>evaluator_type\<close> and \<^verbatim>\<open>cost\<close>;
  \<^verbatim>\<open>vector_eval<Expr, per_column, Means>\<close> forwards \<^verbatim>\<open>evaluator_type\<close>,
  \<^verbatim>\<open>normal_cost\<close> and \<^verbatim>\<open>shortv_cost\<close>, and declares no \<^verbatim>\<open>cost\<close>.
\<close>

definition forward_linear :: "build_error + eval_members \<Rightarrow> build_error + eval_members" where
  "forward_linear G =
     (case G of
        Inl e \<Rightarrow> Inl e
      | Inr g \<Rightarrow> Inr \<lparr> evaluator_type = evaluator_type g, cost = cost g,
                      normal_cost = None, shortv_cost = None \<rparr>)"

definition forward_percol :: "build_error + eval_members \<Rightarrow> build_error + eval_members" where
  "forward_percol G =
     (case G of
        Inl e \<Rightarrow> Inl e
      | Inr g \<Rightarrow> Inr \<lparr> evaluator_type = evaluator_type g, cost = None,
                      normal_cost = normal_cost g, shortv_cost = shortv_cost g \<rparr>)"

text \<open>
  The two specialisations for \<^verbatim>\<open>const_matrix<T, CTRows, CTCols>\<close> with \<^verbatim>\<open>by_scalars\<close>.
\<close>

definition const_linear :: eval_members where
  "const_linear =
     \<lparr> evaluator_type = const_linear_evaluator, cost = Some 0,
       normal_cost = None, shortv_cost = None \<rparr>"

definition const_percol :: eval_members where
  "const_percol =
     \<lparr> evaluator_type = const_percol_evaluator, cost = Some 0,
       normal_cost = Some 0, shortv_cost = Some 0 \<rparr>"

text \<open>
  \<^verbatim>\<open>vector_eval<Expr, Org, Means>\<close>: the most specialised matching definition.  The
  \<^verbatim>\<open>const_matrix\<close> specialisations fix \<^verbatim>\<open>by_scalars\<close>, so a constant matrix with another
  means falls to the forwarding ones.
\<close>

definition vector_eval :: "xpr_type \<Rightarrow> org \<Rightarrow> means \<Rightarrow> build_error + eval_members" where
  "vector_eval E ogn mns =
     (if is_const_matrix E \<and> mns = by_scalars then
        (case ogn of as_linear_vec \<Rightarrow> Inr const_linear | per_column \<Rightarrow> Inr const_percol)
      else
        (case ogn of
           as_linear_vec \<Rightarrow> forward_linear (generic_vector_eval E as_linear_vec mns)
         | per_column \<Rightarrow> forward_percol (generic_vector_eval E per_column mns)))"

subsection \<open>The default policy\<close>

text \<open>
  \<^verbatim>\<open>vector_eval_default_policy<Expr>\<close>: both costs are the member \<^verbatim>\<open>cost\<close> of
  \<^verbatim>\<open>vector_eval\<close> for \<^verbatim>\<open>by_scalars\<close>.
\<close>

record default_policy =
  linear_cost :: int
  percol_cost :: int
  choose_linear :: bool
  policy_type :: vector_eval_policy

definition vector_eval_default_policy :: "xpr_type \<Rightarrow> build_error + default_policy" where
  "vector_eval_default_policy E =
     (case member ''cost'' cost (vector_eval E as_linear_vec by_scalars) of
        Inl e \<Rightarrow> Inl e
      | Inr lc \<Rightarrow>
          (case member ''cost'' cost (vector_eval E per_column by_scalars) of
             Inl e \<Rightarrow> Inl e
           | Inr pc \<Rightarrow>
               Inr \<lparr> linear_cost = lc, percol_cost = pc, choose_linear = (lc \<le> pc),
                     policy_type =
                       \<lparr> policy_org = (if lc \<le> pc then as_linear_vec else per_column),
                         policy_means = by_scalars \<rparr> \<rparr>))"

section \<open>The run-time layer\<close>

subsection \<open>Store and trace\<close>

text \<open>
  A pointer of type \<^verbatim>\<open>T*\<close> is an integer address, in units of one \<^verbatim>\<open>T\<close>; the store gives
  every address a cell.  Reads and writes outside allocated storage are undefined
  behaviour in the source and are not told apart here: the statements below speak only
  about the cells of the matrices involved.  Values of \<^verbatim>\<open>index_t\<close> are integers: a loop
  counter runs from 0 to its bound and never past it, so no counter wraps around.

  The trace records, in execution order, the effects the statements are about: the
  materialisation of a temporary, each write through \<^verbatim>\<open>pd\<close>, and each call of
  \<^verbatim>\<open>next_column\<close>.  It is observation only; nothing reads it.
\<close>

type_synonym 'a store = "int \<Rightarrow> 'a"

datatype event = Materialize | Write int | Next_column

record 'a machine =
  mem :: "'a store"
  trace :: "event list"

definition write_cell :: "int \<Rightarrow> 'a \<Rightarrow> 'a machine \<Rightarrow> 'a machine" where
  "write_cell a v s = s\<lparr>mem := (mem s)(a := v), trace := trace s @ [Write a]\<rparr>"

definition log_event :: "event \<Rightarrow> 'a machine \<Rightarrow> 'a machine" where
  "log_event e s = s\<lparr>trace := trace s @ [e]\<rparr>"

subsection \<open>Matrices and expressions\<close>

text \<open>
  Modelled from the spec: the matrix classes (\<^verbatim>\<open>matrix_classes.h\<close>) are not among the
  sources.  The header uses, of a dense matrix, \<^verbatim>\<open>ptr_data()\<close>, \<^verbatim>\<open>lead_dim()\<close>,
  \<^verbatim>\<open>nrows()\<close>, \<^verbatim>\<open>ncolumns()\<close> and \<^verbatim>\<open>nelems()\<close>; each is a field.  The leading dimension
  is the stride, in elements, between the start of one column and the next, so element
  \<open>(i, j)\<close> is the cell at \<open>ptr_data + i + j * lead_dim\<close>.
\<close>

record dense_mat =
  ptr_data :: int
  lead_dim :: int
  nrows :: int
  ncolumns :: int
  nelems :: int

text \<open>
  An expression is a dense matrix, a \<^verbatim>\<open>const_matrix\<close> (one value, a row and a column
  count), or any other expression, of which the core uses the row and column counts and
  the value of element \<open>(i, j)\<close>; that value may depend on the store, since an expression
  holds references to its operands.
\<close>

datatype 'a matrix_xpr =
    Dense dense_mat
  | Const_matrix 'a int int
  | Xpr "'a store \<Rightarrow> int \<Rightarrow> int \<Rightarrow> 'a" int int

fun xpr_nrows :: "'a matrix_xpr \<Rightarrow> int" where
  "xpr_nrows (Dense X) = nrows X"
| "xpr_nrows (Const_matrix v r c) = r"
| "xpr_nrows (Xpr f r c) = r"

fun xpr_ncolumns :: "'a matrix_xpr \<Rightarrow> int" where
  "xpr_ncolumns (Dense X) = ncolumns X"
| "xpr_ncolumns (Const_matrix v r c) = c"
| "xpr_ncolumns (Xpr f r c) = c"

fun elem :: "'a matrix_xpr \<Rightarrow> 'a store \<Rightarrow> int \<Rightarrow> int \<Rightarrow> 'a" where
  "elem (Dense X) h i j = h (ptr_data X + i + j * lead_dim X)"
| "elem (Const_matrix v r c) h i j = v"
| "elem (Xpr f r c) h i j = f h i j"

text \<open>
  Modelled from the spec: \<^verbatim>\<open>dense_matrix<T> m_cache(X)\<close>, the constructor of a dense
  matrix from an expression, is not among the sources.  It builds a private dense
  temporary by fully materialising the expression once.  The temporary owns its cells,
  column after column with no gap, so its leading dimension is its row count and element
  \<open>(i, j)\<close> is cell \<open>i + j * nrows\<close> of the temporary.  A read outside the temporary is
  undefined behaviour in the source and an unspecified value here.
\<close>

definition materialize :: "'a matrix_xpr \<Rightarrow> 'a store \<Rightarrow> 'a list" where
  "materialize X h =
     map (\<lambda>k. elem X h (int k mod xpr_nrows X) (int k div xpr_nrows X))
       [0 ..< nat (xpr_nrows X * xpr_ncolumns X)]"

subsection \<open>Vector evaluators\<close>

text \<open>
  The classes deriving from \<^verbatim>\<open>ILinearVectorEvaluator\<close>, with their data members:
  \<^verbatim>\<open>m_data\<close>; \<^verbatim>\<open>m_val\<close>; \<^verbatim>\<open>m_cache\<close> and \<^verbatim>\<open>m_data\<close>, an offset into the cache.
\<close>

datatype 'a linear_evaluator =
    Continuous_linear int
  | Const_linear 'a
  | Cached_linear "'a list" int

fun linear_get_value :: "'a linear_evaluator \<Rightarrow> 'a store \<Rightarrow> int \<Rightarrow> 'a" where
  "linear_get_value (Continuous_linear m_data) h i = h (m_data + i)"
| "linear_get_value (Const_linear m_val) h i = m_val"
| "linear_get_value (Cached_linear m_cache m_data) h i = m_cache ! nat (m_data + i)"

text \<open>
  The classes deriving from \<^verbatim>\<open>IPerColVectorEvaluator\<close>: \<^verbatim>\<open>m_ldim\<close> and \<^verbatim>\<open>m_data\<close>;
  \<^verbatim>\<open>m_val\<close>; \<^verbatim>\<open>m_cache\<close>, \<^verbatim>\<open>m_ldim\<close> and \<^verbatim>\<open>m_data\<close>.
\<close>

datatype 'a percol_evaluator =
    Dense_percol int int
  | Const_percol 'a
  | Cached_percol "'a list" int int

fun percol_get_value :: "'a percol_evaluator \<Rightarrow> 'a store \<Rightarrow> int \<Rightarrow> 'a" where
  "percol_get_value (Dense_percol m_ldim m_data) h i = h (m_data + i)"
| "percol_get_value (Const_percol m_val) h i = m_val"
| "percol_get_value (Cached_percol m_cache m_ldim m_data) h i = m_cache ! nat (m_data + i)"

fun next_column :: "'a percol_evaluator \<Rightarrow> 'a percol_evaluator" where
  "next_column (Dense_percol m_ldim m_data) = Dense_percol m_ldim (m_data + m_ldim)"
| "next_column (Const_percol m_val) = Const_percol m_val"
| "next_column (Cached_percol m_cache m_ldim m_data) =
     Cached_percol m_cache m_ldim (m_data + m_ldim)"

text \<open>
  The constructors.  \<^verbatim>\<open>continuous_linear_evaluator\<close> and \<^verbatim>\<open>dense_percol_evaluator\<close> take
  an \<^verbatim>\<open>IDenseMatrix\<close>, the constant ones a \<^verbatim>\<open>const_matrix\<close>, the cached ones any
  \<^verbatim>\<open>IMatrixXpr\<close>.  The first asserts continuous layout when \<^verbatim>\<open>LMAT_USE_STATIC_ASSERT\<close> is
  defined.  The cached ones build \<^verbatim>\<open>m_cache\<close> in the member initialiser list and point
  \<^verbatim>\<open>m_data\<close> at its first cell; \<^verbatim>\<open>m_ldim\<close> is the leading dimension of the cache.
\<close>

definition construct_linear :: "bool \<Rightarrow> xpr_type \<Rightarrow> evaluator_class \<Rightarrow> 'a matrix_xpr \<Rightarrow>
    'a machine \<Rightarrow> build_error + ('a linear_evaluator \<times> 'a machine)" where
  "construct_linear use_static_assert E cls X s =
     (case cls of
        continuous_linear_evaluator \<Rightarrow>
          (case X of
             Dense D \<Rightarrow>
               if use_static_assert \<and> \<not> ct_has_continuous_layout E
               then Inl Static_assertion_failed
               else Inr (Continuous_linear (ptr_data D), s)
           | Const_matrix v r c \<Rightarrow> Inl No_matching_constructor
           | Xpr f r c \<Rightarrow> Inl No_matching_constructor)
      | const_linear_evaluator \<Rightarrow>
          (case X of
             Const_matrix v r c \<Rightarrow> Inr (Const_linear v, s)
           | Dense D \<Rightarrow> Inl No_matching_constructor
           | Xpr f r c \<Rightarrow> Inl No_matching_constructor)
      | cached_linear_evaluator \<Rightarrow>
          Inr (Cached_linear (materialize X (mem s)) 0, log_event Materialize s)
      | dense_percol_evaluator \<Rightarrow> Inl No_matching_function
      | const_percol_evaluator \<Rightarrow> Inl No_matching_function
      | cached_percol_evaluator \<Rightarrow> Inl No_matching_function)"

definition construct_percol :: "evaluator_class \<Rightarrow> 'a matrix_xpr \<Rightarrow>
    'a machine \<Rightarrow> build_error + ('a percol_evaluator \<times> 'a machine)" where
  "construct_percol cls X s =
     (case cls of
        dense_percol_evaluator \<Rightarrow>
          (case X of
             Dense D \<Rightarrow> Inr (Dense_percol (lead_dim D) (ptr_data D), s)
           | Const_matrix v r c \<Rightarrow> Inl No_matching_constructor
           | Xpr f r c \<Rightarrow> Inl No_matching_constructor)
      | const_percol_evaluator \<Rightarrow>
          (case X of
             Const_matrix v r c \<Rightarrow> Inr (Const_percol v, s)
           | Dense D \<Rightarrow> Inl No_matching_constructor
           | Xpr f r c \<Rightarrow> Inl No_matching_constructor)
      | cached_percol_evaluator \<Rightarrow>
          Inr (Cached_percol (materialize X (mem s)) (xpr_nrows X) 0,
               log_event Materialize s)
      | continuous_linear_evaluator \<Rightarrow> Inl No_matching_function
      | const_linear_evaluator \<Rightarrow> Inl No_matching_function
      | cached_linear_evaluator \<Rightarrow> Inl No_matching_function)"

subsection \<open>The evaluation loops\<close>

text \<open>
  \<^verbatim>\<open>for (index_t i = 0; i < n; ++i) pd[i] = evaluator.get_value(i);\<close> from counter \<open>i\<close>
  on.  The loops are templates over the evaluator class: \<open>gv\<close> is its \<^verbatim>\<open>get_value\<close>,
  which may read the store.
\<close>

function for_i :: "('a store \<Rightarrow> int \<Rightarrow> 'a) \<Rightarrow> int \<Rightarrow> int \<Rightarrow> int \<Rightarrow> 'a machine \<Rightarrow> 'a machine" where
  "for_i gv pd n i s =
     (if i < n then for_i gv pd n (i + 1) (write_cell (pd + i) (gv (mem s) i) s) else s)"
  by pat_completeness auto
termination
  by (relation "measure (\<lambda>(gv, pd, n, i, s). nat (n - i))") auto

text \<open>
  \<^verbatim>\<open>for (index_t j = 0; j < ncols; ++j, pd += ldim, evaluator.next_column())\<close> around the
  loop over rows, from counter \<open>j\<close> on.  \<open>gv\<close> and \<open>nc\<close> are \<^verbatim>\<open>get_value\<close> and
  \<^verbatim>\<open>next_column\<close> of the evaluator class, \<open>ev\<close> the evaluator, which the loop changes.
\<close>

function for_j :: "('e \<Rightarrow> 'a store \<Rightarrow> int \<Rightarrow> 'a) \<Rightarrow> ('e \<Rightarrow> 'e) \<Rightarrow> int \<Rightarrow> int \<Rightarrow> int \<Rightarrow>
    int \<Rightarrow> int \<Rightarrow> 'e \<Rightarrow> 'a machine \<Rightarrow> 'e \<times> 'a machine" where
  "for_j gv nc n ncols ldim j pd ev s =
     (if j < ncols
      then for_j gv nc n ncols ldim (j + 1) (pd + ldim) (nc ev)
             (log_event Next_column (for_i (gv ev) pd n 0 s))
      else (ev, s))"
  by pat_completeness auto
termination
  by (relation "measure (\<lambda>(gv, nc, n, ncols, ldim, j, pd, ev, s). nat (ncols - j))") auto

text \<open>
  \<^verbatim>\<open>linear_eval_impl<T, CTSize, by_scalars>::evaluate\<close> and
  \<^verbatim>\<open>linear_eval_impl<T, DynamicDim, by_scalars>::evaluate\<close>.
\<close>

definition linear_evaluate_static :: "int \<Rightarrow> ('a store \<Rightarrow> int \<Rightarrow> 'a) \<Rightarrow> dense_mat \<Rightarrow>
    'a machine \<Rightarrow> 'a machine" where
  "linear_evaluate_static CTSize gv dst s = for_i gv (ptr_data dst) CTSize 0 s"

definition linear_evaluate_dynamic :: "('a store \<Rightarrow> int \<Rightarrow> 'a) \<Rightarrow> dense_mat \<Rightarrow>
    'a machine \<Rightarrow> 'a machine" where
  "linear_evaluate_dynamic gv dst s = for_i gv (ptr_data dst) (nelems dst) 0 s"

text \<open>
  \<^verbatim>\<open>percol_eval_impl<T, CTRows, CTCols, by_scalars>::evaluate\<close> and
  \<^verbatim>\<open>percol_eval_impl<T, DynamicDim, CTCols, by_scalars>::evaluate\<close>.  Both read the column
  count from the destination.
\<close>

definition percol_evaluate_static :: "int \<Rightarrow> ('e \<Rightarrow> 'a store \<Rightarrow> int \<Rightarrow> 'a) \<Rightarrow> ('e \<Rightarrow> 'e) \<Rightarrow>
    'e \<Rightarrow> dense_mat \<Rightarrow> 'a machine \<Rightarrow> 'e \<times> 'a machine" where
  "percol_evaluate_static CTRows gv nc ev dst s =
     for_j gv nc CTRows (ncolumns dst) (lead_dim dst) 0 (ptr_data dst) ev s"

definition percol_evaluate_dynamic :: "('e \<Rightarrow> 'a store \<Rightarrow> int \<Rightarrow> 'a) \<Rightarrow> ('e \<Rightarrow> 'e) \<Rightarrow>
    'e \<Rightarrow> dense_mat \<Rightarrow> 'a machine \<Rightarrow> 'e \<times> 'a machine" where
  "percol_evaluate_dynamic gv nc ev dst s =
     for_j gv nc (nrows dst) (ncolumns dst) (lead_dim dst) 0 (ptr_data dst) ev s"

subsection \<open>Choice of the loop and the entry points\<close>

text \<open>
  What the build supplies from outside the header: whether \<^verbatim>\<open>LMAT_USE_STATIC_ASSERT\<close> is
  defined, the value of \<^verbatim>\<open>DynamicDim\<close>, and, for the pair of expression and destination
  types, \<^verbatim>\<open>binary_ct_size\<close>, \<^verbatim>\<open>binary_ct_rows\<close> and \<^verbatim>\<open>binary_ct_cols\<close>.
\<close>

record build =
  LMAT_USE_STATIC_ASSERT :: bool
  DynamicDim :: int
  binary_ct_size :: int
  binary_ct_rows :: int
  binary_ct_cols :: int

text \<open>
  The traversal length of the linear loop and the row bound of the per-column loop: the
  specialisation for \<^verbatim>\<open>DynamicDim\<close> reads the destination, the other one uses the
  template argument.
\<close>

definition linear_length :: "build \<Rightarrow> dense_mat \<Rightarrow> int" where
  "linear_length B dst =
     (if binary_ct_size B = DynamicDim B then nelems dst else binary_ct_size B)"

definition percol_rows :: "build \<Rightarrow> dense_mat \<Rightarrow> int" where
  "percol_rows B dst =
     (if binary_ct_rows B = DynamicDim B then nrows dst else binary_ct_rows B)"

text \<open>
  \<^verbatim>\<open>vector_eval_impl_map<Expr, Dst, as_linear_vec, Means>::type::evaluate\<close>.  Only the
  specialisations for \<^verbatim>\<open>by_scalars\<close> are defined; the one for a compile-time size asserts
  that the size is positive.
\<close>

definition linear_eval_impl :: "build \<Rightarrow> means \<Rightarrow> ('a store \<Rightarrow> int \<Rightarrow> 'a) \<Rightarrow> dense_mat \<Rightarrow>
    'a machine \<Rightarrow> build_error + 'a machine" where
  "linear_eval_impl B mns gv dst s =
     (case mns of
        by_simd \<Rightarrow> Inl Incomplete_type
      | by_scalars \<Rightarrow>
          if binary_ct_size B = DynamicDim B then Inr (linear_evaluate_dynamic gv dst s)
          else if LMAT_USE_STATIC_ASSERT B \<and> \<not> 0 < binary_ct_size B
          then Inl Static_assertion_failed
          else Inr (linear_evaluate_static (binary_ct_size B) gv dst s))"

text \<open>\<^verbatim>\<open>vector_eval_impl_map<Expr, Dst, per_column, Means>::type::evaluate\<close>.\<close>

definition percol_eval_impl :: "build \<Rightarrow> means \<Rightarrow> ('e \<Rightarrow> 'a store \<Rightarrow> int \<Rightarrow> 'a) \<Rightarrow> ('e \<Rightarrow> 'e) \<Rightarrow>
    'e \<Rightarrow> dense_mat \<Rightarrow> 'a machine \<Rightarrow> build_error + 'e \<times> 'a machine" where
  "percol_eval_impl B mns gv nc ev dst s =
     (case mns of
        by_simd \<Rightarrow> Inl Incomplete_type
      | by_scalars \<Rightarrow>
          if binary_ct_rows B = DynamicDim B then Inr (percol_evaluate_dynamic gv nc ev dst s)
          else if LMAT_USE_STATIC_ASSERT B \<and> \<not> 0 < binary_ct_rows B
          then Inl Static_assertion_failed
          else Inr (percol_evaluate_static (binary_ct_rows B) gv nc ev dst s))"

text \<open>
  \<^verbatim>\<open>evaluate(src, dst, vector_eval_policy<Org, Means>)\<close>: the evaluator class from
  \<^verbatim>\<open>vector_eval\<close>, one evaluator constructed from the expression, then the loop.  The
  evaluator is a local object and is gone when the call returns.
\<close>

definition evaluate :: "build \<Rightarrow> xpr_type \<Rightarrow> 'a matrix_xpr \<Rightarrow> dense_mat \<Rightarrow> vector_eval_policy \<Rightarrow>
    'a machine \<Rightarrow> build_error + 'a machine" where
  "evaluate B E src dst pol s =
     (case vector_eval E (policy_org pol) (policy_means pol) of
        Inl e \<Rightarrow> Inl e
      | Inr ve \<Rightarrow>
          (case policy_org pol of
             as_linear_vec \<Rightarrow>
               (case construct_linear (LMAT_USE_STATIC_ASSERT B) E (evaluator_type ve) src s of
                  Inl e \<Rightarrow> Inl e
                | Inr (ev, s1) \<Rightarrow>
                    linear_eval_impl B (policy_means pol) (linear_get_value ev) dst s1)
           | per_column \<Rightarrow>
               (case construct_percol (evaluator_type ve) src s of
                  Inl e \<Rightarrow> Inl e
                | Inr (ev, s1) \<Rightarrow>
                    (case percol_eval_impl B (policy_means pol) percol_get_value next_column
                            ev dst s1 of
                       Inl e \<Rightarrow> Inl e
                     | Inr (ev', s2) \<Rightarrow> Inr s2))))"

definition linear_by_scalars_evaluate :: "build \<Rightarrow> xpr_type \<Rightarrow> 'a matrix_xpr \<Rightarrow> dense_mat \<Rightarrow>
    'a machine \<Rightarrow> build_error + 'a machine" where
  "linear_by_scalars_evaluate B E expr dst s =
     evaluate B E expr dst \<lparr>policy_org = as_linear_vec, policy_means = by_scalars\<rparr> s"

definition percol_by_scalars_evaluate :: "build \<Rightarrow> xpr_type \<Rightarrow> 'a matrix_xpr \<Rightarrow> dense_mat \<Rightarrow>
    'a machine \<Rightarrow> build_error + 'a machine" where
  "percol_by_scalars_evaluate B E expr dst s =
     evaluate B E expr dst \<lparr>policy_org = per_column, policy_means = by_scalars\<rparr> s"

section \<open>Vocabulary of the statements\<close>

text \<open>
  The effects of one pass of the outer loop on the column that starts at \<open>pd\<close> and has
  \<open>n\<close> rows: the writes at rows \<open>0, 1, \<dots>, n - 1\<close>, in this order, then one
  \<^verbatim>\<open>next_column\<close>.
\<close>

definition column_events :: "int \<Rightarrow> int \<Rightarrow> event list" where
  "column_events pd n = map (\<lambda>k. Write (pd + int k)) [0 ..< nat n] @ [Next_column]"

text \<open>
  The assignment \<^verbatim>\<open>pd[i] = evaluator.get_value(i)\<close>, with \<^verbatim>\<open>get_value\<close> evaluated in the
  store of that moment.
\<close>

definition assign :: "('a store \<Rightarrow> int \<Rightarrow> 'a) \<Rightarrow> int \<Rightarrow> 'a machine \<Rightarrow> nat \<Rightarrow> 'a machine" where
  "assign gv pd s i = write_cell (pd + int i) (gv (mem s) (int i)) s"

text \<open>
  One pass of the outer loop, for column \<open>j\<close> of a destination that starts at \<open>pd\<close>: the
  assignments of the rows \<open>0, \<dots>, n - 1\<close> in this order at \<open>pd + j * ldim\<close>, then the
  evaluator advanced by one \<^verbatim>\<open>next_column\<close>.
\<close>

definition column_pass :: "('e \<Rightarrow> 'a store \<Rightarrow> int \<Rightarrow> 'a) \<Rightarrow> ('e \<Rightarrow> 'e) \<Rightarrow> int \<Rightarrow> int \<Rightarrow> int \<Rightarrow>
    'e \<times> 'a machine \<Rightarrow> nat \<Rightarrow> 'e \<times> 'a machine" where
  "column_pass gv nc n ldim pd es j =
     (nc (fst es),
      log_event Next_column
        (foldl (assign (gv (fst es)) (pd + int j * ldim)) (snd es) [0 ..< nat n]))"

text \<open>The effects of a whole loop on a destination, in execution order.\<close>

fun loop_events :: "build \<Rightarrow> org \<Rightarrow> dense_mat \<Rightarrow> event list" where
  "loop_events B as_linear_vec dst =
     map (\<lambda>k. Write (ptr_data dst + int k)) [0 ..< nat (linear_length B dst)]"
| "loop_events B per_column dst =
     concat (map (\<lambda>j. column_events (ptr_data dst + int j * lead_dim dst) (percol_rows B dst))
       [0 ..< nat (ncolumns dst)])"

text \<open>
  Whether the evaluator that \<^verbatim>\<open>vector_eval\<close> selects is one of the two cached ones.
\<close>

fun uses_cache :: "xpr_type \<Rightarrow> org \<Rightarrow> bool" where
  "uses_cache E as_linear_vec = (\<not> is_const_matrix E \<and> \<not> linear_can_direct E)"
| "uses_cache E per_column = (\<not> is_const_matrix E \<and> \<not> percol_can_direct E)"

text \<open>Two stores that agree on every cell outside \<open>W\<close>.\<close>

definition agree_off :: "int set \<Rightarrow> 'a store \<Rightarrow> 'a store \<Rightarrow> bool" where
  "agree_off W h h' = (\<forall>a. a \<notin> W \<longrightarrow> h a = h' a)"

text \<open>The cells the two loops write: a run of cells, or the columns of the destination.\<close>

definition linear_cells :: "build \<Rightarrow> dense_mat \<Rightarrow> int set" where
  "linear_cells B dst = {ptr_data dst ..< ptr_data dst + linear_length B dst}"

definition percol_cells :: "build \<Rightarrow> dense_mat \<Rightarrow> int set" where
  "percol_cells B dst =
     {ptr_data dst + i + j * lead_dim dst | i j.
        0 \<le> i \<and> i < percol_rows B dst \<and> 0 \<le> j \<and> j < ncolumns dst}"

fun written_cells :: "build \<Rightarrow> org \<Rightarrow> dense_mat \<Rightarrow> int set" where
  "written_cells B as_linear_vec dst = linear_cells B dst"
| "written_cells B per_column dst = percol_cells B dst"

text \<open>The cells that hold the elements of a dense matrix.\<close>

definition dense_cells :: "dense_mat \<Rightarrow> int set" where
  "dense_cells X =
     {ptr_data X + i + j * lead_dim X | i j.
        0 \<le> i \<and> i < nrows X \<and> 0 \<le> j \<and> j < ncolumns X}"

text \<open>
  An evaluator that does not read the cells \<open>W\<close>: changing the store inside \<open>W\<close> changes
  none of the values it returns at the indices the loop asks for.
\<close>

definition linear_reads_off :: "('a store \<Rightarrow> int \<Rightarrow> 'a) \<Rightarrow> int set \<Rightarrow> int \<Rightarrow> 'a store \<Rightarrow> bool" where
  "linear_reads_off gv W n h0 =
     (\<forall>h k. agree_off W h h0 \<and> 0 \<le> k \<and> k < n \<longrightarrow> gv h k = gv h0 k)"

definition percol_reads_off :: "('e \<Rightarrow> 'a store \<Rightarrow> int \<Rightarrow> 'a) \<Rightarrow> ('e \<Rightarrow> 'e) \<Rightarrow> 'e \<Rightarrow> int set \<Rightarrow>
    int \<Rightarrow> int \<Rightarrow> 'a store \<Rightarrow> bool" where
  "percol_reads_off gv nc ev W n c h0 =
     (\<forall>h m k. agree_off W h h0 \<and> int m < c \<and> 0 \<le> k \<and> k < n \<longrightarrow>
        gv ((nc ^^ m) ev) h k = gv ((nc ^^ m) ev) h0 k)"

text \<open>
  An expression that does not read the cells \<open>W\<close>: changing the store inside \<open>W\<close> changes
  none of its elements.
\<close>

definition xpr_reads_off :: "'a matrix_xpr \<Rightarrow> int set \<Rightarrow> 'a store \<Rightarrow> bool" where
  "xpr_reads_off src W h0 =
     (\<forall>h i j. agree_off W h h0 \<and> 0 \<le> i \<and> i < xpr_nrows src \<and> 0 \<le> j \<and> j < xpr_ncolumns src
        \<longrightarrow> elem src h i j = elem src h0 i j)"

text \<open>
  What the expression type system outside the header guarantees about a call of
  \<^verbatim>\<open>evaluate\<close>: the traits describe the object (a dense matrix has a dense type, and a
  type with continuous layout has no gap between columns), the destination has the shape
  of the expression, a compile-time size is positive and is the size of the destination,
  a destination written linearly has no gap between its columns, and a column of a
  destination written per column fits in its leading dimension.
\<close>

definition well_typed :: "build \<Rightarrow> xpr_type \<Rightarrow> 'a matrix_xpr \<Rightarrow> dense_mat \<Rightarrow> org \<Rightarrow> bool" where
  "well_typed B E src dst ogn =
     ((case src of
         Dense X \<Rightarrow> is_dense_mat E \<and> \<not> is_const_matrix E \<and>
           (\<not> ct_has_continuous_layout E \<or> lead_dim X = nrows X)
       | Const_matrix v r c \<Rightarrow> is_const_matrix E
       | Xpr f r c \<Rightarrow> \<not> is_dense_mat E \<and> \<not> is_const_matrix E)
      \<and> xpr_nrows src = nrows dst \<and> xpr_ncolumns src = ncolumns dst
      \<and> 0 \<le> nrows dst \<and> 0 \<le> ncolumns dst
      \<and> (case ogn of
           as_linear_vec \<Rightarrow>
             (binary_ct_size B = DynamicDim B \<or> 0 < binary_ct_size B)
             \<and> linear_length B dst = nrows dst * ncolumns dst
             \<and> lead_dim dst = nrows dst
         | per_column \<Rightarrow>
             (binary_ct_rows B = DynamicDim B \<or> 0 < binary_ct_rows B)
             \<and> percol_rows B dst = nrows dst
             \<and> nrows dst \<le> lead_dim dst))"

section \<open>Example inputs\<close>

text \<open>
  Concrete builds, types, matrices and stores for the worked examples below.  In all of
  them \<^verbatim>\<open>DynamicDim\<close> is 0 and static assertions are on.
\<close>

text \<open>A build in which every size of the pair of types is dynamic.\<close>

definition dynamic_build :: build where
  "dynamic_build =
     \<lparr>LMAT_USE_STATIC_ASSERT = True, DynamicDim = 0, binary_ct_size = 0,
      binary_ct_rows = 0, binary_ct_cols = 0\<rparr>"

text \<open>A build in which the pair of types has \<open>r\<close> rows and \<open>c\<close> columns at compile time.\<close>

definition static_build :: "int \<Rightarrow> int \<Rightarrow> build" where
  "static_build r c =
     \<lparr>LMAT_USE_STATIC_ASSERT = True, DynamicDim = 0, binary_ct_size = r * c,
      binary_ct_rows = r, binary_ct_cols = c\<rparr>"

text \<open>
  The type of a dense matrix with dynamic sizes, with or without continuous layout; the
  type of a constant matrix; the type of an expression that is computed per element.
\<close>

definition dense_type :: "bool \<Rightarrow> xpr_type" where
  "dense_type continuous =
     \<lparr>is_const_matrix = False, is_dense_mat = True, ct_has_continuous_layout = continuous,
      ct_rows = 0, ct_cols = 0\<rparr>"

definition const_type :: xpr_type where
  "const_type =
     \<lparr>is_const_matrix = True, is_dense_mat = False, ct_has_continuous_layout = False,
      ct_rows = 0, ct_cols = 0\<rparr>"

definition computed_type :: xpr_type where
  "computed_type =
     \<lparr>is_const_matrix = False, is_dense_mat = False, ct_has_continuous_layout = False,
      ct_rows = 0, ct_cols = 0\<rparr>"

text \<open>The dense matrix with \<open>r\<close> rows and \<open>c\<close> columns at address \<open>p\<close>, leading dimension \<open>ld\<close>.\<close>

definition dense_at :: "int \<Rightarrow> int \<Rightarrow> int \<Rightarrow> int \<Rightarrow> dense_mat" where
  "dense_at p ld r c = \<lparr>ptr_data = p, lead_dim = ld, nrows = r, ncolumns = c, nelems = r * c\<rparr>"

text \<open>
  The store in which cell \<open>a\<close> holds \<open>a\<close>, and the store in which the cells 10 to 13 hold
  1, 2, 3, 4; both with an empty trace.
\<close>

definition counting_store :: "int machine" where
  "counting_store = \<lparr>mem = (\<lambda>a. a), trace = []\<rparr>"

definition one_to_four :: "int machine" where
  "one_to_four = \<lparr>mem = (\<lambda>a. a - 9), trace = []\<rparr>"

section \<open>Properties of the compile-time layer\<close>

subsection \<open>Helper facts\<close>

lemma generic_linear_ignores_const:
  "generic_linear (E\<lparr>is_const_matrix := b\<rparr>) = generic_linear E"
  by (simp add: generic_linear_def linear_can_direct_def)

lemma generic_percol_ignores_const:
  "generic_percol (E\<lparr>is_const_matrix := b\<rparr>) = generic_percol E"
  by (simp add: generic_percol_def percol_can_direct_def has_short_col_def
      percol_shortv_cost_def percol_normal_cost_def)

lemma vector_eval_linear_nonconst:
  "\<not> is_const_matrix E \<Longrightarrow>
     vector_eval E as_linear_vec by_scalars = Inr (generic_linear E)"
  by (simp add: vector_eval_def forward_linear_def generic_linear_def)

lemma vector_eval_percol_nonconst:
  "\<not> is_const_matrix E \<Longrightarrow>
     vector_eval E per_column by_scalars = Inr ((generic_percol E)\<lparr>cost := None\<rparr>)"
  by (simp add: vector_eval_def forward_percol_def generic_percol_def)

lemma vector_eval_const:
  "is_const_matrix E \<Longrightarrow>
     vector_eval E ogn by_scalars =
       Inr (case ogn of as_linear_vec \<Rightarrow> const_linear | per_column \<Rightarrow> const_percol)"
  by (cases ogn) (simp_all add: vector_eval_def)

lemma default_policy_nonconst:
  "\<not> is_const_matrix E \<Longrightarrow> vector_eval_default_policy E = Inl (No_member ''cost'')"
  by (simp add: vector_eval_default_policy_def vector_eval_linear_nonconst
      vector_eval_percol_nonconst member_def generic_linear_def)

lemma default_policy_const:
  "is_const_matrix E \<Longrightarrow>
     vector_eval_default_policy E =
       Inr \<lparr> linear_cost = 0, percol_cost = 0, choose_linear = True,
             policy_type = \<lparr> policy_org = as_linear_vec, policy_means = by_scalars \<rparr> \<rparr>"
  by (simp add: vector_eval_default_policy_def vector_eval_const member_def
      const_linear_def const_percol_def)

section \<open>Properties of the loops\<close>

text \<open>
  The loops are unfolded one step at a time, by hand: their defining equations are not
  simplification rules.
\<close>

declare for_i.simps [simp del]
declare for_j.simps [simp del]

lemma for_i_trace:
  "trace (for_i gv pd n i s) = trace s @ map (\<lambda>k. Write (pd + i + int k)) [0 ..< nat (n - i)]"
proof (induction gv pd n i s rule: for_i.induct)
  case (1 gv pd n i s)
  show ?case
  proof (cases "i < n")
    case True
    then have n: "nat (n - i) = Suc (nat (n - (i + 1)))" by simp
    have "[0 ..< Suc (nat (n - (i + 1)))] = 0 # map Suc [0 ..< nat (n - (i + 1))]"
      by (simp add: upt_conv_Cons map_Suc_upt del: upt_Suc)
    then show ?thesis
      using True "1.IH" [OF True]
      by (subst for_i.simps) (simp add: n write_cell_def comp_def add.assoc del: upt_Suc)
  next
    case False
    then show ?thesis by (subst for_i.simps) simp
  qed
qed

lemma for_i_outside:
  "\<not> (pd + i \<le> a \<and> a < pd + n) \<Longrightarrow> mem (for_i gv pd n i s) a = mem s a"
proof (induction gv pd n i s rule: for_i.induct)
  case (1 gv pd n i s)
  show ?case
  proof (cases "i < n")
    case True
    from "1.prems" have "\<not> (pd + (i + 1) \<le> a \<and> a < pd + n)" by auto
    from "1.IH" [OF True this] "1.prems" True show ?thesis
      by (subst for_i.simps) (auto simp: write_cell_def)
  next
    case False
    then show ?thesis by (subst for_i.simps) simp
  qed
qed

lemma for_i_inside:
  assumes "\<And>h k. i \<le> k \<Longrightarrow> k < n \<Longrightarrow> (\<forall>a. a \<notin> W \<longrightarrow> h a = h0 a) \<Longrightarrow> gv h k = gv h0 k"
    and "\<And>k. i \<le> k \<Longrightarrow> k < n \<Longrightarrow> pd + k \<in> W"
    and "\<forall>a. a \<notin> W \<longrightarrow> mem s a = h0 a"
    and "i \<le> k" and "k < n"
  shows "mem (for_i gv pd n i s) (pd + k) = gv h0 k"
  using assms
proof (induction gv pd n i s rule: for_i.induct)
  case (1 gv pd n i s)
  from "1.prems" have lt: "i < n" by simp
  let ?s' = "write_cell (pd + i) (gv (mem s) i) s"
  have gvi: "gv (mem s) i = gv h0 i"
    using "1.prems"(1) [of i "mem s"] lt "1.prems"(3) by simp
  have agree': "\<forall>a. a \<notin> W \<longrightarrow> mem ?s' a = h0 a"
    using "1.prems"(2) [of i] "1.prems"(3) lt by (auto simp: write_cell_def)
  show ?case
  proof (cases "k = i")
    case True
    have "mem (for_i gv pd n (i + 1) ?s') (pd + i) = mem ?s' (pd + i)"
      by (rule for_i_outside) simp
    then show ?thesis
      using lt True gvi by (subst for_i.simps) (simp add: write_cell_def)
  next
    case False
    with "1.prems" have k: "i + 1 \<le> k" by simp
    have "mem (for_i gv pd n (i + 1) ?s') (pd + k) = gv h0 k"
    proof (rule "1.IH" [OF lt _ _ agree' k "1.prems"(5)])
      fix h k' assume "i + 1 \<le> k'" "k' < n" "\<forall>a. a \<notin> W \<longrightarrow> h a = h0 a"
      then show "gv h k' = gv h0 k'" using "1.prems"(1) [of k' h] by simp
    next
      fix k' assume "i + 1 \<le> k'" "k' < n"
      then show "pd + k' \<in> W" using "1.prems"(2) [of k'] by simp
    qed
    then show ?thesis using lt by (subst for_i.simps) simp
  qed
qed

lemma for_j_ev:
  "fst (for_j gv nc n ncols ldim j pd ev s) = (nc ^^ nat (ncols - j)) ev"
proof (induction gv nc n ncols ldim j pd ev s rule: for_j.induct)
  case (1 gv nc n ncols ldim j pd ev s)
  show ?case
  proof (cases "j < ncols")
    case True
    then have n: "nat (ncols - j) = Suc (nat (ncols - (j + 1)))" by simp
    show ?thesis
      using True "1.IH" [OF True]
      by (subst for_j.simps) (simp add: n funpow_swap1)
  next
    case False
    then show ?thesis by (subst for_j.simps) simp
  qed
qed

lemma concat_map_upt_Suc:
  "concat (map f [0 ..< Suc N]) = f 0 @ concat (map (\<lambda>m. f (Suc m)) [0 ..< N])"
proof -
  have "[0 ..< Suc N] = 0 # map Suc [0 ..< N]"
    by (simp add: upt_conv_Cons map_Suc_upt del: upt_Suc)
  then show ?thesis by (simp add: comp_def del: upt_Suc)
qed

lemma for_j_trace:
  "trace (snd (for_j gv nc n ncols ldim j pd ev s)) =
     trace s @ concat (map (\<lambda>m. column_events (pd + int m * ldim) n) [0 ..< nat (ncols - j)])"
proof (induction gv nc n ncols ldim j pd ev s rule: for_j.induct)
  case (1 gv nc n ncols ldim j pd ev s)
  show ?case
  proof (cases "j < ncols")
    case True
    then have n: "nat (ncols - j) = Suc (nat (ncols - (j + 1)))" by simp
    have shift: "\<And>m. pd + int (Suc m) * ldim = pd + ldim + int m * ldim"
      by (simp add: algebra_simps)
    have first: "trace (log_event Next_column (for_i (gv ev) pd n 0 s)) =
        trace s @ column_events (pd + int 0 * ldim) n"
      by (simp add: log_event_def for_i_trace column_events_def)
    have "trace (snd (for_j gv nc n ncols ldim j pd ev s)) =
        trace (snd (for_j gv nc n ncols ldim (j + 1) (pd + ldim) (nc ev)
          (log_event Next_column (for_i (gv ev) pd n 0 s))))"
      using True by (subst for_j.simps) simp
    also have "\<dots> = (trace s @ column_events (pd + int 0 * ldim) n) @
        concat (map (\<lambda>m. column_events (pd + ldim + int m * ldim) n)
          [0 ..< nat (ncols - (j + 1))])"
      unfolding "1.IH" [OF True] first ..
    also have "\<dots> = trace s @
        concat (map (\<lambda>m. column_events (pd + int m * ldim) n) [0 ..< nat (ncols - j)])"
      unfolding n concat_map_upt_Suc shift by simp
    finally show ?thesis .
  next
    case False
    then show ?thesis by (subst for_j.simps) simp
  qed
qed

lemma for_j_below:
  "0 \<le> ldim \<Longrightarrow> a < pd \<Longrightarrow> mem (snd (for_j gv nc n ncols ldim j pd ev s)) a = mem s a"
proof (induction gv nc n ncols ldim j pd ev s rule: for_j.induct)
  case (1 gv nc n ncols ldim j pd ev s)
  show ?case
  proof (cases "j < ncols")
    case True
    from "1.prems" have "a < pd + ldim" by simp
    from "1.IH" [OF True "1.prems"(1) this] "1.prems" True show ?thesis
      by (subst for_j.simps) (simp add: log_event_def for_i_outside)
  next
    case False
    then show ?thesis by (subst for_j.simps) simp
  qed
qed

lemma for_j_outside:
  assumes "\<And>m k. int m < ncols - j \<Longrightarrow> 0 \<le> k \<Longrightarrow> k < n \<Longrightarrow> pd + int m * ldim + k \<in> W"
    and "a \<notin> W"
  shows "mem (snd (for_j gv nc n ncols ldim j pd ev s)) a = mem s a"
  using assms
proof (induction gv nc n ncols ldim j pd ev s rule: for_j.induct)
  case (1 gv nc n ncols ldim j pd ev s)
  show ?case
  proof (cases "j < ncols")
    case True
    let ?s' = "log_event Next_column (for_i (gv ev) pd n 0 s)"
    have "\<not> (pd + 0 \<le> a \<and> a < pd + n)"
    proof
      assume "pd + 0 \<le> a \<and> a < pd + n"
      then have "pd + int 0 * ldim + (a - pd) \<in> W"
        using True by (intro "1.prems"(1)) auto
      with "1.prems"(2) show False by simp
    qed
    then have a: "mem ?s' a = mem s a"
      by (simp add: log_event_def for_i_outside)
    have "mem (snd (for_j gv nc n ncols ldim (j + 1) (pd + ldim) (nc ev) ?s')) a = mem ?s' a"
    proof (rule "1.IH" [OF True _ "1.prems"(2)])
      fix m k assume "int m < ncols - (j + 1)" "0 \<le> k" "k < n"
      then have "pd + int (Suc m) * ldim + k \<in> W"
        by (intro "1.prems"(1)) auto
      then show "pd + ldim + int m * ldim + k \<in> W" by (simp add: algebra_simps)
    qed
    with a True show ?thesis by (subst for_j.simps) simp
  next
    case False
    then show ?thesis by (subst for_j.simps) simp
  qed
qed

lemma for_j_inside:
  assumes "\<And>m h k. int m < ncols - j \<Longrightarrow> 0 \<le> k \<Longrightarrow> k < n \<Longrightarrow>
             (\<forall>a. a \<notin> W \<longrightarrow> h a = h0 a) \<Longrightarrow> gv ((nc ^^ m) ev) h k = gv ((nc ^^ m) ev) h0 k"
    and "\<And>m k. int m < ncols - j \<Longrightarrow> 0 \<le> k \<Longrightarrow> k < n \<Longrightarrow> pd + int m * ldim + k \<in> W"
    and "\<forall>a. a \<notin> W \<longrightarrow> mem s a = h0 a"
    and "n \<le> ldim"
    and "int m < ncols - j" and "0 \<le> k" and "k < n"
  shows "mem (snd (for_j gv nc n ncols ldim j pd ev s)) (pd + int m * ldim + k) =
           gv ((nc ^^ m) ev) h0 k"
  using assms
proof (induction gv nc n ncols ldim j pd ev s arbitrary: m rule: for_j.induct)
  case (1 gv nc n ncols ldim j pd ev s)
  from "1.prems"(5) have lt: "j < ncols" by simp
  from "1.prems" have ldim: "0 < ldim" by simp
  let ?s1 = "for_i (gv ev) pd n 0 s"
  let ?s' = "log_event Next_column ?s1"
  have sub0: "\<And>k. 0 \<le> k \<Longrightarrow> k < n \<Longrightarrow> pd + k \<in> W"
    using "1.prems"(2) [of 0] lt by simp
  have agree': "\<forall>a. a \<notin> W \<longrightarrow> mem ?s' a = h0 a"
  proof (intro allI impI)
    fix a assume a: "a \<notin> W"
    then have "\<not> (pd + 0 \<le> a \<and> a < pd + n)"
      using sub0 [of "a - pd"] by auto
    then have "mem ?s1 a = mem s a" by (rule for_i_outside)
    with a "1.prems"(3) show "mem ?s' a = h0 a" by (simp add: log_event_def)
  qed
  have unfold: "for_j gv nc n ncols ldim j pd ev s =
      for_j gv nc n ncols ldim (j + 1) (pd + ldim) (nc ev) ?s'"
    using lt by (subst for_j.simps) simp
  show ?case
  proof (cases m)
    case 0
    have "mem ?s1 (pd + k) = gv ev h0 k"
    proof (rule for_i_inside [where W = W])
      fix h k' assume "0 \<le> k'" "k' < n" "\<forall>a. a \<notin> W \<longrightarrow> h a = h0 a"
      then show "gv ev h k' = gv ev h0 k'"
        using "1.prems"(1) [of 0 k' h] lt by simp
    next
      fix k' assume "0 \<le> k'" "k' < n"
      then show "pd + k' \<in> W" by (rule sub0)
    qed (use "1.prems" in auto)
    moreover have "mem (snd (for_j gv nc n ncols ldim (j + 1) (pd + ldim) (nc ev) ?s'))
        (pd + k) = mem ?s' (pd + k)"
      using "1.prems" ldim by (intro for_j_below) auto
    ultimately show ?thesis
      using 0 by (simp add: unfold log_event_def)
  next
    case (Suc m')
    have "mem (snd (for_j gv nc n ncols ldim (j + 1) (pd + ldim) (nc ev) ?s'))
        (pd + ldim + int m' * ldim + k) = gv ((nc ^^ m') (nc ev)) h0 k"
    proof (rule "1.IH" [OF lt _ _ agree' "1.prems"(4) _ "1.prems"(6,7)])
      fix m'' h k' assume "int m'' < ncols - (j + 1)" "0 \<le> k'" "k' < n"
        "\<forall>a. a \<notin> W \<longrightarrow> h a = h0 a"
      then show "gv ((nc ^^ m'') (nc ev)) h k' = gv ((nc ^^ m'') (nc ev)) h0 k'"
        using "1.prems"(1) [of "Suc m''" k' h] by (simp add: funpow_swap1)
    next
      fix m'' k' assume "int m'' < ncols - (j + 1)" "0 \<le> k'" "k' < n"
      then have "pd + int (Suc m'') * ldim + k' \<in> W"
        by (intro "1.prems"(2)) auto
      then show "pd + ldim + int m'' * ldim + k' \<in> W" by (simp add: algebra_simps)
    next
      show "int m' < ncols - (j + 1)" using "1.prems"(5) Suc by simp
    qed
    then show ?thesis
      using Suc by (simp add: unfold funpow_swap1 algebra_simps)
  qed
qed

section \<open>Properties of the evaluators and of the entry point\<close>

lemma foldl_upt_Suc_shift:
  "foldl f s [0 ..< Suc m] = foldl (\<lambda>s k. f s (Suc k)) (f s 0) [0 ..< m]"
proof -
  have "[0 ..< Suc m] = 0 # map Suc [0 ..< m]"
    by (simp add: upt_conv_Cons map_Suc_upt del: upt_Suc)
  then show ?thesis by (simp add: foldl_map del: upt_Suc)
qed

lemma for_i_foldl:
  "for_i gv pd n i s =
     foldl (\<lambda>s k. write_cell (pd + i + int k) (gv (mem s) (i + int k)) s) s [0 ..< nat (n - i)]"
proof (induction gv pd n i s rule: for_i.induct)
  case (1 gv pd n i s)
  show ?case
  proof (cases "i < n")
    case True
    then have n: "nat (n - i) = Suc (nat (n - (i + 1)))" by simp
    have "for_i gv pd n i s = for_i gv pd n (i + 1) (write_cell (pd + i) (gv (mem s) i) s)"
      using True by (subst for_i.simps) simp
    also have "\<dots> = foldl (\<lambda>s k. write_cell (pd + (i + 1) + int k) (gv (mem s) (i + 1 + int k)) s)
        (write_cell (pd + i) (gv (mem s) i) s) [0 ..< nat (n - (i + 1))]"
      by (rule "1.IH" [OF True])
    also have "\<dots> = foldl (\<lambda>s k. write_cell (pd + i + int k) (gv (mem s) (i + int k)) s) s
        [0 ..< nat (n - i)]"
      unfolding n foldl_upt_Suc_shift by (simp add: algebra_simps)
    finally show ?thesis .
  next
    case False
    then show ?thesis by (subst for_i.simps) simp
  qed
qed

lemma for_i_assign:
  "for_i gv pd n 0 s = foldl (assign gv pd) s [0 ..< nat n]"
proof -
  have "(\<lambda>s k. write_cell (pd + 0 + int k) (gv (mem s) (0 + int k)) s) = assign gv pd"
    by (intro ext) (simp add: assign_def)
  with for_i_foldl [of gv pd n 0 s] show ?thesis by simp
qed

lemma for_j_foldl:
  "for_j gv nc n ncols ldim j pd ev s =
     foldl (column_pass gv nc n ldim pd) (ev, s) [0 ..< nat (ncols - j)]"
proof (induction gv nc n ncols ldim j pd ev s rule: for_j.induct)
  case (1 gv nc n ncols ldim j pd ev s)
  show ?case
  proof (cases "j < ncols")
    case True
    then have n: "nat (ncols - j) = Suc (nat (ncols - (j + 1)))" by simp
    have shift: "\<And>es k. column_pass gv nc n ldim (pd + ldim) es k =
        column_pass gv nc n ldim pd es (Suc k)"
      by (simp add: column_pass_def algebra_simps)
    have first: "(nc ev, log_event Next_column (for_i (gv ev) pd n 0 s)) =
        column_pass gv nc n ldim pd (ev, s) 0"
      by (simp add: column_pass_def for_i_assign)
    have "for_j gv nc n ncols ldim j pd ev s =
        for_j gv nc n ncols ldim (j + 1) (pd + ldim) (nc ev)
          (log_event Next_column (for_i (gv ev) pd n 0 s))"
      using True by (subst for_j.simps) simp
    also have "\<dots> = foldl (column_pass gv nc n ldim (pd + ldim))
        (nc ev, log_event Next_column (for_i (gv ev) pd n 0 s)) [0 ..< nat (ncols - (j + 1))]"
      by (rule "1.IH" [OF True])
    also have "\<dots> = foldl (column_pass gv nc n ldim pd) (ev, s) [0 ..< nat (ncols - j)]"
      unfolding n foldl_upt_Suc_shift shift first ..
    finally show ?thesis .
  next
    case False
    then show ?thesis by (subst for_j.simps) simp
  qed
qed

lemma linear_eval_impl_scalars:
  "binary_ct_size B = DynamicDim B \<or> 0 < binary_ct_size B \<Longrightarrow>
     linear_eval_impl B by_scalars gv dst s =
       Inr (for_i gv (ptr_data dst) (linear_length B dst) 0 s)"
  by (auto simp: linear_eval_impl_def linear_length_def linear_evaluate_dynamic_def
      linear_evaluate_static_def)

lemma percol_eval_impl_scalars:
  "binary_ct_rows B = DynamicDim B \<or> 0 < binary_ct_rows B \<Longrightarrow>
     percol_eval_impl B by_scalars gv nc ev dst s =
       Inr (for_j gv nc (percol_rows B dst) (ncolumns dst) (lead_dim dst) 0 (ptr_data dst) ev s)"
  by (auto simp: percol_eval_impl_def percol_rows_def percol_evaluate_dynamic_def
      percol_evaluate_static_def)

lemma evaluate_linear_unfold:
  assumes "vector_eval E as_linear_vec by_scalars = Inr ve"
    and "construct_linear (LMAT_USE_STATIC_ASSERT B) E (evaluator_type ve) src s = Inr (ev, s1)"
    and "binary_ct_size B = DynamicDim B \<or> 0 < binary_ct_size B"
  shows "evaluate B E src dst \<lparr>policy_org = as_linear_vec, policy_means = by_scalars\<rparr> s =
     Inr (for_i (linear_get_value ev) (ptr_data dst) (linear_length B dst) 0 s1)"
  using assms by (simp add: evaluate_def linear_eval_impl_scalars)

lemma evaluate_percol_unfold:
  assumes "vector_eval E per_column by_scalars = Inr ve"
    and "construct_percol (evaluator_type ve) src s = Inr (ev, s1)"
    and "binary_ct_rows B = DynamicDim B \<or> 0 < binary_ct_rows B"
  shows "evaluate B E src dst \<lparr>policy_org = per_column, policy_means = by_scalars\<rparr> s =
     Inr (snd (for_j percol_get_value next_column (percol_rows B dst) (ncolumns dst)
       (lead_dim dst) 0 (ptr_data dst) ev s1))"
  using assms by (simp add: evaluate_def percol_eval_impl_scalars split: prod.splits)

lemma agree_off_refl: "agree_off W h h"
  by (simp add: agree_off_def)

lemma agree_off_trans: "agree_off W h h' \<Longrightarrow> agree_off W h' h'' \<Longrightarrow> agree_off W h h''"
  by (simp add: agree_off_def)

lemma agree_off_sym: "agree_off W h h' \<Longrightarrow> agree_off W h' h"
  by (simp add: agree_off_def)

lemma linear_loop_values:
  assumes "linear_reads_off gv W n h0" and "{pd ..< pd + n} \<subseteq> W" and "agree_off W (mem s) h0"
    and "0 \<le> k" and "k < n"
  shows "mem (for_i gv pd n 0 s) (pd + k) = gv h0 k"
proof (rule for_i_inside [where W = W])
  fix h k' assume "0 \<le> k'" "k' < n" "\<forall>a. a \<notin> W \<longrightarrow> h a = h0 a"
  then show "gv h k' = gv h0 k'"
    using assms(1) unfolding linear_reads_off_def agree_off_def by blast
next
  fix k' :: int assume "0 \<le> k'" "k' < n"
  then show "pd + k' \<in> W" using assms(2) by auto
next
  show "\<forall>a. a \<notin> W \<longrightarrow> mem s a = h0 a" using assms(3) by (simp add: agree_off_def)
next
  show "0 \<le> k" by fact
next
  show "k < n" by fact
qed

lemma percol_loop_values:
  assumes "percol_reads_off gv nc ev W n c h0"
    and "\<And>i j. 0 \<le> i \<Longrightarrow> i < n \<Longrightarrow> 0 \<le> j \<Longrightarrow> j < c \<Longrightarrow> pd + i + j * ldim \<in> W"
    and "agree_off W (mem s) h0"
    and "n \<le> ldim"
    and "0 \<le> i" and "i < n" and "0 \<le> j" and "j < c"
  shows "mem (snd (for_j gv nc n c ldim 0 pd ev s)) (pd + i + j * ldim) = gv ((nc ^^ nat j) ev) h0 i"
proof -
  have "mem (snd (for_j gv nc n c ldim 0 pd ev s)) (pd + int (nat j) * ldim + i) =
      gv ((nc ^^ nat j) ev) h0 i"
  proof (rule for_j_inside [where W = W])
    fix m h k assume a: "int m < c - 0" "0 \<le> k" "k < n" "\<forall>a. a \<notin> W \<longrightarrow> h a = h0 a"
    from a(4) have ag: "agree_off W h h0" by (simp add: agree_off_def)
    from a(1) have m: "int m < c" by simp
    from assms(1) ag m a(2,3) show "gv ((nc ^^ m) ev) h k = gv ((nc ^^ m) ev) h0 k"
      unfolding percol_reads_off_def by blast
  next
    fix m k assume b: "int m < c - 0" "0 \<le> k" "k < n"
    have "pd + k + int m * ldim \<in> W"
    proof (rule assms(2))
      show "0 \<le> k" "k < n" by fact+
      show "0 \<le> int m" by simp
      show "int m < c" using b(1) by simp
    qed
    then show "pd + int m * ldim + k \<in> W" by (simp add: algebra_simps)
  next
    show "\<forall>a. a \<notin> W \<longrightarrow> mem s a = h0 a" using assms(3) by (simp add: agree_off_def)
  next
    show "n \<le> ldim" by fact
  next
    show "int (nat j) < c - 0" using assms(7,8) by simp
  next
    show "0 \<le> i" by fact
  next
    show "i < n" by fact
  qed
  then show ?thesis using assms(7) by (simp add: algebra_simps)
qed

lemma percol_loop_outside:
  assumes "\<And>i j. 0 \<le> i \<Longrightarrow> i < n \<Longrightarrow> 0 \<le> j \<Longrightarrow> j < c \<Longrightarrow> pd + i + j * ldim \<in> W"
    and "a \<notin> W"
  shows "mem (snd (for_j gv nc n c ldim 0 pd ev s)) a = mem s a"
proof (rule for_j_outside [where W = W])
  fix m k assume b: "int m < c - 0" "0 \<le> k" "k < n"
  have "pd + k + int m * ldim \<in> W"
  proof (rule assms(1))
    show "0 \<le> k" "k < n" by fact+
    show "0 \<le> int m" by simp
    show "int m < c" using b(1) by simp
  qed
  then show "pd + int m * ldim + k \<in> W" by (simp add: algebra_simps)
qed (rule assms(2))

lemma funpow_next_column_dense:
  "(next_column ^^ m) (Dense_percol ld p) = Dense_percol ld (p + int m * ld)"
  by (induction m) (simp_all add: algebra_simps)

lemma funpow_next_column_const:
  "(next_column ^^ m) (Const_percol v) = Const_percol v"
  by (induction m) simp_all

lemma funpow_next_column_cached:
  "(next_column ^^ m) (Cached_percol c ld p) = Cached_percol c ld (p + int m * ld)"
  by (induction m) (simp_all add: algebra_simps)

lemma div_less_of_less_mult:
  fixes k r c :: int
  assumes "0 \<le> k" and "k < r * c" and "0 < r"
  shows "k div r < c"
proof (rule ccontr)
  assume "\<not> k div r < c"
  then have "c \<le> k div r" by simp
  then have "c * r \<le> (k div r) * r" using assms(3) by (simp add: mult_right_mono)
  also have "\<dots> \<le> k"
  proof -
    have "(k div r) * r + k mod r = k" by simp
    moreover have "0 \<le> k mod r" using assms(3) by simp
    ultimately show ?thesis by linarith
  qed
  finally show False using assms(2) by (simp add: mult.commute)
qed

lemma flat_index_less:
  fixes i j r c :: int
  assumes "0 \<le> i" and "i < r" and "0 \<le> j" and "j < c"
  shows "i + j * r < r * c"
proof -
  have "i + j * r < r + j * r" using assms by simp
  also have "\<dots> = (j + 1) * r" by (simp add: algebra_simps)
  also have "\<dots> \<le> c * r" using assms by (intro mult_right_mono) auto
  finally show ?thesis by (simp add: mult.commute)
qed

lemma materialize_nth:
  assumes "0 \<le> k" and "k < xpr_nrows X * xpr_ncolumns X"
  shows "materialize X h ! nat k = elem X h (k mod xpr_nrows X) (k div xpr_nrows X)"
  using assms by (simp add: materialize_def nat_less_iff)

lemma materialize_elem:
  assumes "0 \<le> i" and "i < xpr_nrows X" and "0 \<le> j" and "j < xpr_ncolumns X"
  shows "materialize X h ! nat (i + j * xpr_nrows X) = elem X h i j"
proof -
  have "i + j * xpr_nrows X < xpr_nrows X * xpr_ncolumns X"
    using assms by (rule flat_index_less)
  moreover have "0 \<le> i + j * xpr_nrows X" using assms by simp
  ultimately have "materialize X h ! nat (i + j * xpr_nrows X) =
      elem X h ((i + j * xpr_nrows X) mod xpr_nrows X) ((i + j * xpr_nrows X) div xpr_nrows X)"
    by (rule materialize_nth [rotated])
  then show ?thesis using assms by simp
qed

lemma flat_index_in_range:
  fixes k r c :: int
  assumes "0 \<le> k" and "k < r * c" and "0 \<le> r"
  shows "0 < r" and "0 \<le> k mod r" and "k mod r < r" and "0 \<le> k div r" and "k div r < c"
proof -
  show r: "0 < r"
  proof (rule ccontr)
    assume "\<not> 0 < r"
    with assms(3) have "r = 0" by simp
    with assms(1,2) show False by simp
  qed
  show "0 \<le> k mod r" "k mod r < r" using r by simp_all
  show "0 \<le> k div r" using r assms(1) by (simp add: pos_imp_zdiv_nonneg_iff)
  show "k div r < c" using assms(1,2) r by (rule div_less_of_less_mult)
qed

lemma construct_linear_represents:
  assumes wt: "well_typed B E src dst as_linear_vec"
    and ro: "linear_can_direct E \<Longrightarrow> xpr_reads_off src W (mem s)"
  shows "\<exists>ve ev s1.
     vector_eval E as_linear_vec by_scalars = Inr ve \<and>
     construct_linear (LMAT_USE_STATIC_ASSERT B) E (evaluator_type ve) src s = Inr (ev, s1) \<and>
     mem s1 = mem s \<and>
     trace s1 = trace s @ (if uses_cache E as_linear_vec then [Materialize] else []) \<and>
     (\<forall>h k. agree_off W h (mem s) \<and> 0 \<le> k \<and> k < nrows dst * ncolumns dst \<longrightarrow>
        linear_get_value ev h k = elem src (mem s) (k mod nrows dst) (k div nrows dst))"
proof -
  from wt have shape: "xpr_nrows src = nrows dst" "xpr_ncolumns src = ncolumns dst"
    "0 \<le> nrows dst"
    by (simp_all add: well_typed_def)
  have cached: "\<forall>h k. 0 \<le> k \<and> k < nrows dst * ncolumns dst \<longrightarrow>
      linear_get_value (Cached_linear (materialize src (mem s)) 0) h k =
        elem src (mem s) (k mod nrows dst) (k div nrows dst)"
    using materialize_nth [of _ src "mem s"] by (simp add: shape)
  show ?thesis
  proof (cases src)
    case (Dense X)
    with wt have ty: "is_dense_mat E" "\<not> is_const_matrix E"
      and lay: "\<not> ct_has_continuous_layout E \<or> lead_dim X = nrows X"
      by (simp_all add: well_typed_def)
    show ?thesis
    proof (cases "ct_has_continuous_layout E")
      case True
      with ty have "linear_can_direct E" by (simp add: linear_can_direct_def)
      note ro = ro [OF this]
      from lay True have ld: "lead_dim X = nrows dst" using shape Dense by simp
      have ve: "vector_eval E as_linear_vec by_scalars = Inr (generic_linear E)"
        using ty by (simp add: vector_eval_linear_nonconst)
      have et: "evaluator_type (generic_linear E) = continuous_linear_evaluator"
        using ty True by (simp add: generic_linear_def linear_can_direct_def)
      have co: "construct_linear (LMAT_USE_STATIC_ASSERT B) E continuous_linear_evaluator src s =
          Inr (Continuous_linear (ptr_data X), s)"
        using True Dense by (simp add: construct_linear_def)
      have "linear_get_value (Continuous_linear (ptr_data X)) h k =
          elem src (mem s) (k mod nrows dst) (k div nrows dst)"
        if a: "agree_off W h (mem s)" "0 \<le> k" "k < nrows dst * ncolumns dst" for h k
      proof -
        note rg = flat_index_in_range [OF a(2,3) shape(3)]
        have "elem src h (k mod nrows dst) (k div nrows dst) =
            elem src (mem s) (k mod nrows dst) (k div nrows dst)"
          using ro a(1) rg unfolding xpr_reads_off_def shape by blast
        moreover have "elem src h (k mod nrows dst) (k div nrows dst) = h (ptr_data X + k)"
          using Dense ld by (simp add: add.assoc)
        ultimately show ?thesis by simp
      qed
      moreover have "\<not> uses_cache E as_linear_vec"
        using ty True by (simp add: linear_can_direct_def)
      ultimately show ?thesis using ve et co by auto
    next
      case False
      have ve: "vector_eval E as_linear_vec by_scalars = Inr (generic_linear E)"
        using ty by (simp add: vector_eval_linear_nonconst)
      have et: "evaluator_type (generic_linear E) = cached_linear_evaluator"
        using False by (simp add: generic_linear_def linear_can_direct_def)
      have co: "construct_linear (LMAT_USE_STATIC_ASSERT B) E cached_linear_evaluator src s =
          Inr (Cached_linear (materialize src (mem s)) 0, log_event Materialize s)"
        by (simp add: construct_linear_def)
      have "mem (log_event Materialize s) = mem s"
        and "trace (log_event Materialize s) = trace s @ [Materialize]"
        by (simp_all add: log_event_def)
      moreover have "uses_cache E as_linear_vec"
        using ty False by (simp add: linear_can_direct_def)
      ultimately show ?thesis using ve et co cached by auto
    qed
  next
    case (Const_matrix v r c)
    with wt have "is_const_matrix E" by (simp add: well_typed_def)
    then have ve: "vector_eval E as_linear_vec by_scalars = Inr const_linear"
      by (simp add: vector_eval_const)
    have co: "construct_linear (LMAT_USE_STATIC_ASSERT B) E const_linear_evaluator src s =
        Inr (Const_linear v, s)"
      using Const_matrix by (simp add: construct_linear_def)
    have et: "evaluator_type const_linear = const_linear_evaluator"
      by (simp add: const_linear_def)
    have "\<not> uses_cache E as_linear_vec"
      using \<open>is_const_matrix E\<close> by simp
    with ve et co Const_matrix show ?thesis by auto
  next
    case (Xpr f r c)
    with wt have ty: "\<not> is_dense_mat E" "\<not> is_const_matrix E"
      by (simp_all add: well_typed_def)
    have ve: "vector_eval E as_linear_vec by_scalars = Inr (generic_linear E)"
      using ty by (simp add: vector_eval_linear_nonconst)
    have et: "evaluator_type (generic_linear E) = cached_linear_evaluator"
      using ty by (simp add: generic_linear_def linear_can_direct_def)
    have co: "construct_linear (LMAT_USE_STATIC_ASSERT B) E cached_linear_evaluator src s =
        Inr (Cached_linear (materialize src (mem s)) 0, log_event Materialize s)"
      by (simp add: construct_linear_def)
    have "mem (log_event Materialize s) = mem s"
      and "trace (log_event Materialize s) = trace s @ [Materialize]"
      by (simp_all add: log_event_def)
    moreover have "uses_cache E as_linear_vec"
      using ty by (simp add: linear_can_direct_def)
    ultimately show ?thesis using ve et co cached by auto
  qed
qed

lemma construct_percol_represents:
  assumes wt: "well_typed B E src dst per_column"
    and ro: "percol_can_direct E \<Longrightarrow> xpr_reads_off src W (mem s)"
  shows "\<exists>ve ev s1.
     vector_eval E per_column by_scalars = Inr ve \<and>
     construct_percol (evaluator_type ve) src s = Inr (ev, s1) \<and>
     mem s1 = mem s \<and>
     trace s1 = trace s @ (if uses_cache E per_column then [Materialize] else []) \<and>
     (\<forall>h m i. agree_off W h (mem s) \<and> int m < ncolumns dst \<and> 0 \<le> i \<and> i < nrows dst \<longrightarrow>
        percol_get_value ((next_column ^^ m) ev) h i = elem src (mem s) i (int m))"
proof -
  from wt have shape: "xpr_nrows src = nrows dst" "xpr_ncolumns src = ncolumns dst"
    "0 \<le> nrows dst"
    by (simp_all add: well_typed_def)
  have cached: "\<forall>h m i. int m < ncolumns dst \<and> 0 \<le> i \<and> i < nrows dst \<longrightarrow>
      percol_get_value ((next_column ^^ m)
        (Cached_percol (materialize src (mem s)) (xpr_nrows src) 0)) h i =
        elem src (mem s) i (int m)"
    using materialize_elem [of _ src _ "mem s"]
    by (simp add: shape funpow_next_column_cached add.commute)
  show ?thesis
  proof (cases src)
    case (Dense X)
    with wt have ty: "is_dense_mat E" "\<not> is_const_matrix E"
      by (simp_all add: well_typed_def)
    from ty have "percol_can_direct E" by (simp add: percol_can_direct_def)
    note ro = ro [OF this]
    have ve: "vector_eval E per_column by_scalars = Inr ((generic_percol E)\<lparr>cost := None\<rparr>)"
      using ty by (simp add: vector_eval_percol_nonconst)
    have et: "evaluator_type ((generic_percol E)\<lparr>cost := None\<rparr>) = dense_percol_evaluator"
      using ty by (simp add: generic_percol_def percol_can_direct_def)
    have co: "construct_percol dense_percol_evaluator src s =
        Inr (Dense_percol (lead_dim X) (ptr_data X), s)"
      using Dense by (simp add: construct_percol_def)
    have "percol_get_value ((next_column ^^ m) (Dense_percol (lead_dim X) (ptr_data X))) h i =
        elem src (mem s) i (int m)"
      if a: "agree_off W h (mem s)" "int m < ncolumns dst" "0 \<le> i" "i < nrows dst" for h m i
    proof -
      have "elem src h i (int m) = elem src (mem s) i (int m)"
        using ro a unfolding xpr_reads_off_def shape by force
      moreover have "elem src h i (int m) = h (ptr_data X + int m * lead_dim X + i)"
        using Dense by (simp add: algebra_simps)
      ultimately show ?thesis by (simp add: funpow_next_column_dense)
    qed
    moreover have "\<not> uses_cache E per_column"
      using ty by (simp add: percol_can_direct_def)
    ultimately show ?thesis using ve et co by auto
  next
    case (Const_matrix v r c)
    with wt have "is_const_matrix E" by (simp add: well_typed_def)
    then have ve: "vector_eval E per_column by_scalars = Inr const_percol"
      by (simp add: vector_eval_const)
    have co: "construct_percol const_percol_evaluator src s = Inr (Const_percol v, s)"
      using Const_matrix by (simp add: construct_percol_def)
    have et: "evaluator_type const_percol = const_percol_evaluator"
      by (simp add: const_percol_def)
    from \<open>is_const_matrix E\<close> have "\<not> uses_cache E per_column" by simp
    with ve et co Const_matrix show ?thesis
      by (auto simp: funpow_next_column_const)
  next
    case (Xpr f r c)
    with wt have ty: "\<not> is_dense_mat E" "\<not> is_const_matrix E"
      by (simp_all add: well_typed_def)
    have ve: "vector_eval E per_column by_scalars = Inr ((generic_percol E)\<lparr>cost := None\<rparr>)"
      using ty by (simp add: vector_eval_percol_nonconst)
    have et: "evaluator_type ((generic_percol E)\<lparr>cost := None\<rparr>) = cached_percol_evaluator"
      using ty by (simp add: generic_percol_def percol_can_direct_def)
    have co: "construct_percol cached_percol_evaluator src s =
        Inr (Cached_percol (materialize src (mem s)) (xpr_nrows src) 0, log_event Materialize s)"
      by (simp add: construct_percol_def)
    have "mem (log_event Materialize s) = mem s"
      and "trace (log_event Materialize s) = trace s @ [Materialize]"
      by (simp_all add: log_event_def)
    moreover have "uses_cache E per_column"
      using ty by (simp add: percol_can_direct_def)
    ultimately show ?thesis using ve et co cached by auto
  qed
qed

lemma evaluate_linear_correct:
  assumes wt: "well_typed B E src dst as_linear_vec"
    and ro: "linear_can_direct E \<Longrightarrow> xpr_reads_off src (linear_cells B dst) (mem s)"
  shows "\<exists>s'. evaluate B E src dst \<lparr>policy_org = as_linear_vec, policy_means = by_scalars\<rparr> s = Inr s' \<and>
     trace s' = trace s @ (if uses_cache E as_linear_vec then [Materialize] else []) @
       loop_events B as_linear_vec dst \<and>
     (\<forall>k. 0 \<le> k \<and> k < nrows dst * ncolumns dst \<longrightarrow>
        mem s' (ptr_data dst + k) = elem src (mem s) (k mod nrows dst) (k div nrows dst)) \<and>
     (\<forall>a. a \<notin> linear_cells B dst \<longrightarrow> mem s' a = mem s a)"
proof -
  from wt have size: "binary_ct_size B = DynamicDim B \<or> 0 < binary_ct_size B"
    and len: "linear_length B dst = nrows dst * ncolumns dst"
    by (simp_all add: well_typed_def)
  let ?W = "linear_cells B dst"
  let ?n = "nrows dst * ncolumns dst"
  let ?pd = "ptr_data dst"
  have W: "?W = {?pd ..< ?pd + ?n}" by (simp add: linear_cells_def len)
  from construct_linear_represents [OF wt ro] obtain ve ev s1 where
    ve: "vector_eval E as_linear_vec by_scalars = Inr ve"
    and co: "construct_linear (LMAT_USE_STATIC_ASSERT B) E (evaluator_type ve) src s = Inr (ev, s1)"
    and m1: "mem s1 = mem s"
    and t1: "trace s1 = trace s @ (if uses_cache E as_linear_vec then [Materialize] else [])"
    and rep: "\<And>h k. agree_off ?W h (mem s) \<Longrightarrow> 0 \<le> k \<Longrightarrow> k < ?n \<Longrightarrow>
        linear_get_value ev h k = elem src (mem s) (k mod nrows dst) (k div nrows dst)"
    by blast
  let ?s' = "for_i (linear_get_value ev) ?pd ?n 0 s1"
  have ev: "evaluate B E src dst \<lparr>policy_org = as_linear_vec, policy_means = by_scalars\<rparr> s = Inr ?s'"
    using evaluate_linear_unfold [OF ve co size] by (simp add: len)
  have inside: "mem ?s' (?pd + k) = elem src (mem s) (k mod nrows dst) (k div nrows dst)"
    if k: "0 \<le> k" "k < ?n" for k
  proof -
    have "mem ?s' (?pd + k) = linear_get_value ev (mem s) k"
    proof (rule for_i_inside [where W = ?W])
      fix h k' assume a: "0 \<le> k'" "k' < ?n" "\<forall>a. a \<notin> ?W \<longrightarrow> h a = mem s a"
      then have "agree_off ?W h (mem s)" by (simp add: agree_off_def)
      from rep [OF this a(1,2)] rep [OF agree_off_refl a(1,2)]
      show "linear_get_value ev h k' = linear_get_value ev (mem s) k'" by simp
    next
      fix k' :: int assume "0 \<le> k'" "k' < ?n"
      then show "?pd + k' \<in> ?W" by (simp add: W)
    next
      show "\<forall>a. a \<notin> ?W \<longrightarrow> mem s1 a = mem s a" by (simp add: m1)
    next
      show "0 \<le> k" "k < ?n" by fact+
    qed
    with rep [OF agree_off_refl k] show ?thesis by simp
  qed
  have outside: "mem ?s' a = mem s a" if "a \<notin> ?W" for a
  proof -
    from that have "\<not> (?pd + 0 \<le> a \<and> a < ?pd + ?n)" by (simp add: W)
    then have "mem ?s' a = mem s1 a" by (rule for_i_outside)
    then show ?thesis by (simp add: m1)
  qed
  have tr: "trace ?s' = trace s @ (if uses_cache E as_linear_vec then [Materialize] else []) @
      loop_events B as_linear_vec dst"
    by (simp add: for_i_trace t1 len)
  from ev tr inside outside show ?thesis by blast
qed

lemma evaluate_percol_correct:
  assumes wt: "well_typed B E src dst per_column"
    and ro: "percol_can_direct E \<Longrightarrow> xpr_reads_off src (percol_cells B dst) (mem s)"
  shows "\<exists>s'. evaluate B E src dst \<lparr>policy_org = per_column, policy_means = by_scalars\<rparr> s = Inr s' \<and>
     trace s' = trace s @ (if uses_cache E per_column then [Materialize] else []) @
       loop_events B per_column dst \<and>
     (\<forall>i j. 0 \<le> i \<and> i < nrows dst \<and> 0 \<le> j \<and> j < ncolumns dst \<longrightarrow>
        mem s' (ptr_data dst + i + j * lead_dim dst) = elem src (mem s) i j) \<and>
     (\<forall>a. a \<notin> percol_cells B dst \<longrightarrow> mem s' a = mem s a)"
proof -
  from wt have size: "binary_ct_rows B = DynamicDim B \<or> 0 < binary_ct_rows B"
    and rows: "percol_rows B dst = nrows dst"
    and fit: "nrows dst \<le> lead_dim dst"
    by (simp_all add: well_typed_def)
  let ?W = "percol_cells B dst"
  let ?pd = "ptr_data dst"
  let ?ld = "lead_dim dst"
  have W: "\<And>i j. 0 \<le> i \<Longrightarrow> i < nrows dst \<Longrightarrow> 0 \<le> j \<Longrightarrow> j < ncolumns dst \<Longrightarrow>
      ?pd + i + j * ?ld \<in> ?W"
    unfolding percol_cells_def rows by blast
  from construct_percol_represents [OF wt ro] obtain ve ev s1 where
    ve: "vector_eval E per_column by_scalars = Inr ve"
    and co: "construct_percol (evaluator_type ve) src s = Inr (ev, s1)"
    and m1: "mem s1 = mem s"
    and t1: "trace s1 = trace s @ (if uses_cache E per_column then [Materialize] else [])"
    and rep: "\<And>h m i. agree_off ?W h (mem s) \<Longrightarrow> int m < ncolumns dst \<Longrightarrow> 0 \<le> i \<Longrightarrow>
        i < nrows dst \<Longrightarrow>
        percol_get_value ((next_column ^^ m) ev) h i = elem src (mem s) i (int m)"
    by blast
  let ?s' = "snd (for_j percol_get_value next_column (nrows dst) (ncolumns dst) ?ld 0 ?pd ev s1)"
  have ev: "evaluate B E src dst \<lparr>policy_org = per_column, policy_means = by_scalars\<rparr> s = Inr ?s'"
    using evaluate_percol_unfold [OF ve co size] by (simp add: rows)
  have ro': "percol_reads_off percol_get_value next_column ev ?W (nrows dst) (ncolumns dst) (mem s)"
    unfolding percol_reads_off_def
  proof (intro allI impI)
    fix h m k
    assume a: "agree_off ?W h (mem s) \<and> int m < ncolumns dst \<and> 0 \<le> k \<and> k < nrows dst"
    then have "percol_get_value ((next_column ^^ m) ev) h k = elem src (mem s) k (int m)"
      by (intro rep) auto
    moreover from a have "percol_get_value ((next_column ^^ m) ev) (mem s) k =
        elem src (mem s) k (int m)"
      by (intro rep agree_off_refl) auto
    ultimately show "percol_get_value ((next_column ^^ m) ev) h k =
        percol_get_value ((next_column ^^ m) ev) (mem s) k" by simp
  qed
  have inside: "mem ?s' (?pd + i + j * ?ld) = elem src (mem s) i j"
    if ij: "0 \<le> i" "i < nrows dst" "0 \<le> j" "j < ncolumns dst" for i j
  proof -
    have "mem ?s' (?pd + i + j * ?ld) = percol_get_value ((next_column ^^ nat j) ev) (mem s) i"
    proof (rule percol_loop_values [OF ro' W _ fit ij])
      show "agree_off ?W (mem s1) (mem s)" by (simp add: m1 agree_off_refl)
    qed
    also have "\<dots> = elem src (mem s) i (int (nat j))"
      using ij by (intro rep agree_off_refl) auto
    finally show ?thesis using ij by simp
  qed
  have outside: "mem ?s' a = mem s a" if "a \<notin> ?W" for a
  proof -
    have "mem ?s' a = mem s1 a"
      by (rule percol_loop_outside [where W = ?W]) (rule W, assumption+, rule that)
    then show ?thesis by (simp add: m1)
  qed
  have tr: "trace ?s' = trace s @ (if uses_cache E per_column then [Materialize] else []) @
      loop_events B per_column dst"
    by (simp add: for_j_trace t1 rows)
  from ev tr inside outside show ?thesis by blast
qed

lemma const_reads_off: "xpr_reads_off (Const_matrix v r c) W h"
  by (simp add: xpr_reads_off_def)

lemma dense_reads_off:
  assumes "dense_cells X \<inter> W = {}"
  shows "xpr_reads_off (Dense X) W h0"
  unfolding xpr_reads_off_def
proof (intro allI impI)
  fix h i j
  assume a: "agree_off W h h0 \<and> 0 \<le> i \<and> i < xpr_nrows (Dense X) \<and> 0 \<le> j \<and>
    j < xpr_ncolumns (Dense X)"
  then have "ptr_data X + i + j * lead_dim X \<in> dense_cells X"
    unfolding dense_cells_def by auto
  with assms have "ptr_data X + i + j * lead_dim X \<notin> W" by auto
  with a show "elem (Dense X) h i j = elem (Dense X) h0 i j"
    by (simp add: agree_off_def)
qed

lemma well_typed_const:
  assumes "well_typed B E src dst ogn" and "is_const_matrix E"
  shows "\<exists>v r c. src = Const_matrix v r c"
  using assms by (cases src) (simp_all add: well_typed_def)

lemma evaluate_correct:
  assumes wt: "well_typed B E src dst ogn"
    and ro: "\<not> is_const_matrix E \<Longrightarrow> \<not> uses_cache E ogn \<Longrightarrow>
      xpr_reads_off src (written_cells B ogn dst) (mem s)"
  shows "\<exists>s'. evaluate B E src dst \<lparr>policy_org = ogn, policy_means = by_scalars\<rparr> s = Inr s' \<and>
     trace s' = trace s @ (if uses_cache E ogn then [Materialize] else []) @ loop_events B ogn dst \<and>
     (\<forall>i j. 0 \<le> i \<and> i < nrows dst \<and> 0 \<le> j \<and> j < ncolumns dst \<longrightarrow>
        mem s' (ptr_data dst + i + j * lead_dim dst) = elem src (mem s) i j) \<and>
     (\<forall>a. a \<notin> written_cells B ogn dst \<longrightarrow> mem s' a = mem s a)"
proof (cases ogn)
  case as_linear_vec
  have ro': "xpr_reads_off src (linear_cells B dst) (mem s)" if cd: "linear_can_direct E"
  proof (cases "is_const_matrix E")
    case True
    with well_typed_const [OF wt] show ?thesis by (auto simp: const_reads_off)
  next
    case False
    with ro cd as_linear_vec show ?thesis by simp
  qed
  from wt as_linear_vec have ld: "lead_dim dst = nrows dst" and r0: "0 \<le> nrows dst"
    by (simp_all add: well_typed_def)
  from evaluate_linear_correct [OF wt [unfolded as_linear_vec] ro'] obtain s' where
    ev: "evaluate B E src dst \<lparr>policy_org = as_linear_vec, policy_means = by_scalars\<rparr> s = Inr s'"
    and tr: "trace s' = trace s @ (if uses_cache E as_linear_vec then [Materialize] else []) @
       loop_events B as_linear_vec dst"
    and flat: "\<And>k. 0 \<le> k \<Longrightarrow> k < nrows dst * ncolumns dst \<Longrightarrow>
        mem s' (ptr_data dst + k) = elem src (mem s) (k mod nrows dst) (k div nrows dst)"
    and out: "\<And>a. a \<notin> linear_cells B dst \<Longrightarrow> mem s' a = mem s a"
    by blast
  have "mem s' (ptr_data dst + i + j * lead_dim dst) = elem src (mem s) i j"
    if ij: "0 \<le> i" "i < nrows dst" "0 \<le> j" "j < ncolumns dst" for i j
  proof -
    have lt: "i + j * nrows dst < nrows dst * ncolumns dst"
      using ij by (rule flat_index_less)
    have ge: "0 \<le> i + j * nrows dst" using ij r0 by simp
    from flat [OF ge lt] ij show ?thesis by (simp add: ld add.assoc)
  qed
  with ev tr out as_linear_vec show ?thesis by auto
next
  case per_column
  have ro': "xpr_reads_off src (percol_cells B dst) (mem s)" if cd: "percol_can_direct E"
  proof (cases "is_const_matrix E")
    case True
    with well_typed_const [OF wt] show ?thesis by (auto simp: const_reads_off)
  next
    case False
    with ro cd per_column show ?thesis by simp
  qed
  from evaluate_percol_correct [OF wt [unfolded per_column] ro'] per_column
  show ?thesis by auto
qed

lemma written_cell_is_element:
  assumes wt: "well_typed B E src dst ogn" and a: "a \<in> written_cells B ogn dst"
  shows "\<exists>i j. 0 \<le> i \<and> i < nrows dst \<and> 0 \<le> j \<and> j < ncolumns dst \<and>
     a = ptr_data dst + i + j * lead_dim dst"
proof (cases ogn)
  case as_linear_vec
  with wt have len: "linear_length B dst = nrows dst * ncolumns dst"
    and ld: "lead_dim dst = nrows dst" and r0: "0 \<le> nrows dst"
    by (simp_all add: well_typed_def)
  let ?k = "a - ptr_data dst"
  from a as_linear_vec have k: "0 \<le> ?k" "?k < nrows dst * ncolumns dst"
    by (simp_all add: linear_cells_def len)
  note rg = flat_index_in_range [OF k r0]
  have "a = ptr_data dst + ?k mod nrows dst + (?k div nrows dst) * lead_dim dst"
    by (simp add: ld add.assoc)
  with rg show ?thesis by blast
next
  case per_column
  with wt have rows: "percol_rows B dst = nrows dst" by (simp add: well_typed_def)
  from a per_column show ?thesis by (auto simp: percol_cells_def rows)
qed

lemma xpr_reads_off_agree:
  assumes ro: "xpr_reads_off src W h0" and ag: "agree_off W h1 h0"
  shows "xpr_reads_off src W h1"
  unfolding xpr_reads_off_def
proof (intro allI impI)
  fix h i j
  assume a: "agree_off W h h1 \<and> 0 \<le> i \<and> i < xpr_nrows src \<and> 0 \<le> j \<and> j < xpr_ncolumns src"
  then have "agree_off W h h0" using ag by (auto intro: agree_off_trans)
  with ro a have "elem src h i j = elem src h0 i j" unfolding xpr_reads_off_def by blast
  moreover from ro ag a have "elem src h1 i j = elem src h0 i j"
    unfolding xpr_reads_off_def by blast
  ultimately show "elem src h i j = elem src h1 i j" by simp
qed

lemma Materialize_notin_loop_events: "Materialize \<notin> set (loop_events B ogn dst)"
  by (cases ogn) (auto simp: column_events_def)

subsection \<open>Running the entry point on a concrete input\<close>

text \<open>The equations that evaluate a call of \<^verbatim>\<open>evaluate\<close> on the example inputs.\<close>

lemmas example_defs = dynamic_build_def dense_type_def dense_at_def counting_store_def

lemmas run_defs = evaluate_def vector_eval_def forward_linear_def forward_percol_def
  generic_linear_def generic_percol_def linear_can_direct_def percol_can_direct_def
  construct_linear_def construct_percol_def linear_eval_impl_def percol_eval_impl_def
  linear_evaluate_dynamic_def linear_evaluate_static_def percol_evaluate_dynamic_def
  percol_evaluate_static_def write_cell_def log_event_def for_i.simps for_j.simps

section \<open>The claims\<close>

subsection \<open>C1: the linear loop\<close>

text \<open>
  C1.  For every linear evaluator \<open>gv\<close> and every destination, the linear loop returns
  and is the sequence of the assignments \<open>dst[i] = get_value(i)\<close> for
  \<open>i = 0, 1, \<dots>, len - 1\<close>, in this order, each with \<open>get_value\<close> evaluated in the
  store of that moment; \<open>len\<close> is the template argument when the size is known at
  compile time and \<^verbatim>\<open>dst.nelems()\<close> otherwise.  If the evaluator does not read the
  cells that the loop writes, then afterwards \<open>dst[i]\<close> holds the value that
  \<open>get_value(i)\<close> had when the loop started, for every \<open>i\<close> below \<open>len\<close>.
  In particular, for a dense expression with continuous layout and a destination of its
  shape whose cells are not cells of the expression, evaluation under linear organisation
  leaves \<open>dst[i]\<close> equal to element \<open>i\<close> of the flattened expression, for every flattened
  index \<open>i\<close>.
\<close>

theorem linear_loop_writes_every_index:
  "(binary_ct_size B = DynamicDim B \<or> 0 < binary_ct_size B \<longrightarrow>
      (\<exists>s'. linear_eval_impl B by_scalars gv dst (s :: 'a machine) = Inr s' \<and>
            s' = foldl (assign gv (ptr_data dst)) s [0 ..< nat (linear_length B dst)] \<and>
            trace s' = trace s @ loop_events B as_linear_vec dst \<and>
            (linear_reads_off gv (linear_cells B dst) (linear_length B dst) (mem s) \<longrightarrow>
               (\<forall>i. 0 \<le> i \<and> i < linear_length B dst \<longrightarrow>
                  mem s' (ptr_data dst + i) = gv (mem s) i))))
   \<and> linear_length B dst =
       (if binary_ct_size B = DynamicDim B then nelems dst else binary_ct_size B)
   \<and> (well_typed B E (Dense X :: 'a matrix_xpr) dst as_linear_vec \<and>
       ct_has_continuous_layout E \<and>
       dense_cells X \<inter> linear_cells B dst = {} \<longrightarrow>
        (\<exists>s'. evaluate B E (Dense X) dst
                 \<lparr>policy_org = as_linear_vec, policy_means = by_scalars\<rparr> s = Inr s' \<and>
              (\<forall>i. 0 \<le> i \<and> i < nrows dst * ncolumns dst \<longrightarrow>
                 mem s' (ptr_data dst + i) = mem s (ptr_data X + i))))"
proof (intro conjI impI)
  assume size: "binary_ct_size B = DynamicDim B \<or> 0 < binary_ct_size B"
  let ?s' = "for_i gv (ptr_data dst) (linear_length B dst) 0 s"
  have run: "linear_eval_impl B by_scalars gv dst s = Inr ?s'"
    using size by (rule linear_eval_impl_scalars)
  have tr: "trace ?s' = trace s @ loop_events B as_linear_vec dst"
    by (simp add: for_i_trace)
  have val: "mem ?s' (ptr_data dst + i) = gv (mem s) i"
    if ro: "linear_reads_off gv (linear_cells B dst) (linear_length B dst) (mem s)"
      and i: "0 \<le> i" "i < linear_length B dst" for i
    using ro _ agree_off_refl i
    by (rule linear_loop_values) (simp add: linear_cells_def)
  show "\<exists>s'. linear_eval_impl B by_scalars gv dst s = Inr s' \<and>
            s' = foldl (assign gv (ptr_data dst)) s [0 ..< nat (linear_length B dst)] \<and>
            trace s' = trace s @ loop_events B as_linear_vec dst \<and>
            (linear_reads_off gv (linear_cells B dst) (linear_length B dst) (mem s) \<longrightarrow>
               (\<forall>i. 0 \<le> i \<and> i < linear_length B dst \<longrightarrow>
                  mem s' (ptr_data dst + i) = gv (mem s) i))"
  proof (intro exI conjI impI allI)
    show "linear_eval_impl B by_scalars gv dst s = Inr ?s'" by (rule run)
    show "?s' = foldl (assign gv (ptr_data dst)) s [0 ..< nat (linear_length B dst)]"
      by (rule for_i_assign)
    show "trace ?s' = trace s @ loop_events B as_linear_vec dst" by (rule tr)
    fix i
    assume "linear_reads_off gv (linear_cells B dst) (linear_length B dst) (mem s)"
      and "0 \<le> i \<and> i < linear_length B dst"
    then show "mem ?s' (ptr_data dst + i) = gv (mem s) i" by (intro val) simp_all
  qed
next
  show "linear_length B dst =
       (if binary_ct_size B = DynamicDim B then nelems dst else binary_ct_size B)"
    by (simp add: linear_length_def)
next
  assume a: "well_typed B E (Dense X :: 'a matrix_xpr) dst as_linear_vec \<and>
       ct_has_continuous_layout E \<and>
       dense_cells X \<inter> linear_cells B dst = {}"
  from a have wt: "well_typed B E (Dense X :: 'a matrix_xpr) dst as_linear_vec"
    by (rule conjunct1)
  from a have cl: "ct_has_continuous_layout E"
    by (rule conjunct1 [OF conjunct2])
  from a have dj: "dense_cells X \<inter> linear_cells B dst = {}"
    by (rule conjunct2 [OF conjunct2])
  from dj have ro: "xpr_reads_off (Dense X) (linear_cells B dst) (mem s)"
    by (rule dense_reads_off)
  from wt cl have ld: "lead_dim X = nrows dst" and r0: "0 \<le> nrows dst"
    by (simp_all add: well_typed_def)
  from evaluate_linear_correct [OF wt ro] obtain s' where
    ev: "evaluate B E (Dense X) dst
           \<lparr>policy_org = as_linear_vec, policy_means = by_scalars\<rparr> s = Inr s'"
    and flat: "\<And>k. 0 \<le> k \<Longrightarrow> k < nrows dst * ncolumns dst \<Longrightarrow>
        mem s' (ptr_data dst + k) =
          elem (Dense X) (mem s) (k mod nrows dst) (k div nrows dst)"
    by blast
  have "mem s' (ptr_data dst + i) = mem s (ptr_data X + i)"
    if i: "0 \<le> i" "i < nrows dst * ncolumns dst" for i
    using flat [OF i] by (simp add: ld add.assoc)
  then have "\<forall>i. 0 \<le> i \<and> i < nrows dst * ncolumns dst \<longrightarrow>
      mem s' (ptr_data dst + i) = mem s (ptr_data X + i)"
    by simp
  with ev
  show "\<exists>s'. evaluate B E (Dense X) dst
                 \<lparr>policy_org = as_linear_vec, policy_means = by_scalars\<rparr> s = Inr s' \<and>
              (\<forall>i. 0 \<le> i \<and> i < nrows dst * ncolumns dst \<longrightarrow>
                 mem s' (ptr_data dst + i) = mem s (ptr_data X + i))"
    by (intro exI [of _ s'] conjI)
qed

text \<open>
  C1 at the 4 by 1 source \<open>[1, 2, 3, 4]\<close> in the cells 10 to 13 and a 4 by 1 destination in
  the cells 0 to 3, with the size known at compile time: the destination ends as
  \<open>[1, 2, 3, 4]\<close>, through the loop and through the entry point.
\<close>

theorem linear_loop_writes_every_index_witness:
  "(binary_ct_size (static_build 4 1) = DynamicDim (static_build 4 1) \<or>
      0 < binary_ct_size (static_build 4 1))
   \<and> linear_reads_off (linear_get_value (Continuous_linear 10))
        (linear_cells (static_build 4 1) (dense_at 0 4 4 1))
        (linear_length (static_build 4 1) (dense_at 0 4 4 1)) (mem one_to_four)
   \<and> well_typed (static_build 4 1) (dense_type True) (Dense (dense_at 10 4 4 1) :: int matrix_xpr)
        (dense_at 0 4 4 1) as_linear_vec
   \<and> ct_has_continuous_layout (dense_type True)
   \<and> dense_cells (dense_at 10 4 4 1) \<inter> linear_cells (static_build 4 1) (dense_at 0 4 4 1) = {}
   \<and> (\<exists>s'. linear_eval_impl (static_build 4 1) by_scalars
               (linear_get_value (Continuous_linear 10)) (dense_at 0 4 4 1) one_to_four = Inr s' \<and>
            mem s' 0 = 1 \<and> mem s' 1 = 2 \<and> mem s' 2 = 3 \<and> mem s' 3 = 4)
   \<and> (\<exists>s'. evaluate (static_build 4 1) (dense_type True) (Dense (dense_at 10 4 4 1))
               (dense_at 0 4 4 1) \<lparr>policy_org = as_linear_vec, policy_means = by_scalars\<rparr>
               one_to_four = Inr s' \<and>
            mem s' 0 = 1 \<and> mem s' 1 = 2 \<and> mem s' 2 = 3 \<and> mem s' 3 = 4)"
proof -
  let ?B = "static_build 4 1" and ?d = "dense_at 0 4 4 1" and ?X = "dense_at 10 4 4 1"
  let ?gv = "linear_get_value (Continuous_linear 10) :: int store \<Rightarrow> int \<Rightarrow> int"
  have size: "binary_ct_size ?B = DynamicDim ?B \<or> 0 < binary_ct_size ?B"
    by (simp add: static_build_def)
  have len: "linear_length ?B ?d = 4"
    by (simp add: linear_length_def static_build_def)
  have cells: "linear_cells ?B ?d = {0 ..< 4}"
    unfolding linear_cells_def len by (simp add: dense_at_def)
  have ro: "linear_reads_off ?gv (linear_cells ?B ?d) (linear_length ?B ?d) (mem one_to_four)"
    unfolding linear_reads_off_def agree_off_def cells len by auto
  have wt: "well_typed ?B (dense_type True) (Dense ?X :: int matrix_xpr) ?d as_linear_vec"
    by (simp add: well_typed_def dense_type_def dense_at_def static_build_def linear_length_def)
  have cl: "ct_has_continuous_layout (dense_type True)" by (simp add: dense_type_def)
  have dj: "dense_cells ?X \<inter> linear_cells ?B ?d = {}"
    unfolding cells by (auto simp: dense_cells_def dense_at_def)
  note th = linear_loop_writes_every_index
    [where B = ?B and gv = ?gv and dst = ?d and s = one_to_four and E = "dense_type True"
       and X = ?X]
  from th size have "\<exists>s'. linear_eval_impl ?B by_scalars ?gv ?d one_to_four = Inr s' \<and>
      s' = foldl (assign ?gv (ptr_data ?d)) one_to_four [0 ..< nat (linear_length ?B ?d)] \<and>
      trace s' = trace one_to_four @ loop_events ?B as_linear_vec ?d \<and>
      (linear_reads_off ?gv (linear_cells ?B ?d) (linear_length ?B ?d) (mem one_to_four) \<longrightarrow>
         (\<forall>i. 0 \<le> i \<and> i < linear_length ?B ?d \<longrightarrow>
            mem s' (ptr_data ?d + i) = ?gv (mem one_to_four) i))"
    by (elim conjE) (erule mp)
  with ro obtain s1 where r1: "linear_eval_impl ?B by_scalars ?gv ?d one_to_four = Inr s1"
    and v1: "\<And>i. 0 \<le> i \<Longrightarrow> i < 4 \<Longrightarrow> mem s1 (ptr_data ?d + i) = ?gv (mem one_to_four) i"
    unfolding len by blast
  have p1: "mem s1 0 = 1 \<and> mem s1 1 = 2 \<and> mem s1 2 = 3 \<and> mem s1 3 = 4"
    using v1 [of 0] v1 [of 1] v1 [of 2] v1 [of 3]
    by (simp add: dense_at_def one_to_four_def)
  from th wt cl dj have "\<exists>s'. evaluate ?B (dense_type True) (Dense ?X) ?d
      \<lparr>policy_org = as_linear_vec, policy_means = by_scalars\<rparr> one_to_four = Inr s' \<and>
      (\<forall>i. 0 \<le> i \<and> i < nrows ?d * ncolumns ?d \<longrightarrow>
         mem s' (ptr_data ?d + i) = mem one_to_four (ptr_data ?X + i))"
    by (elim conjE) (erule mp, intro conjI)
  then obtain s2 where r2: "evaluate ?B (dense_type True) (Dense ?X) ?d
      \<lparr>policy_org = as_linear_vec, policy_means = by_scalars\<rparr> one_to_four = Inr s2"
    and v2: "\<And>i. 0 \<le> i \<Longrightarrow> i < nrows ?d * ncolumns ?d \<Longrightarrow>
         mem s2 (ptr_data ?d + i) = mem one_to_four (ptr_data ?X + i)"
    by blast
  have p2: "mem s2 0 = 1 \<and> mem s2 1 = 2 \<and> mem s2 2 = 3 \<and> mem s2 3 = 4"
    using v2 [of 0] v2 [of 1] v2 [of 2] v2 [of 3]
    by (simp add: dense_at_def one_to_four_def)
  from size ro wt cl dj r1 p1 r2 p2 show ?thesis by blast
qed

text \<open>
  C1 without the condition on the cells.  A 2 by 1 source in the cells 0 and 1 and a
  destination in the cells 1 and 2, in the store where cell \<open>a\<close> holds \<open>a\<close>: the first
  write overwrites the second element of the source before it is read, so \<open>dst[1]\<close> ends
  as 0 and not as 1, the element the expression had.  With source and destination
  exchanged, \<open>dst[0]\<close> ends as 1 and the first element of the expression as 2.
\<close>

theorem linear_overlap_counterexample:
  "well_typed dynamic_build (dense_type True) (Dense (dense_at 0 2 2 1) :: int matrix_xpr)
     (dense_at 1 2 2 1) as_linear_vec
   \<and> (case evaluate dynamic_build (dense_type True) (Dense (dense_at 0 2 2 1)) (dense_at 1 2 2 1)
             \<lparr>policy_org = as_linear_vec, policy_means = by_scalars\<rparr> counting_store of
         Inl e \<Rightarrow> False
       | Inr s' \<Rightarrow> mem s' (1 + 1) = 0 \<and> mem counting_store (0 + 1) = 1 \<and>
           mem s' (1 + 1) \<noteq> mem counting_store (0 + 1))
   \<and> well_typed dynamic_build (dense_type True) (Dense (dense_at 1 2 2 1) :: int matrix_xpr)
     (dense_at 0 2 2 1) as_linear_vec
   \<and> (case evaluate dynamic_build (dense_type True) (Dense (dense_at 1 2 2 1)) (dense_at 0 2 2 1)
             \<lparr>policy_org = as_linear_vec, policy_means = by_scalars\<rparr> counting_store of
         Inl e \<Rightarrow> False
       | Inr s' \<Rightarrow> mem s' (0 + 0) = 1 \<and> mem s' (1 + 0) = 2 \<and>
           mem s' (0 + 0) \<noteq> mem s' (1 + 0))"
  by (simp add: example_defs run_defs well_typed_def linear_length_def)

subsection \<open>C2: the per-column loop\<close>

text \<open>
  C2.  For every per-column evaluator and every destination with \<open>c\<close> columns and \<open>r\<close>
  rows, the per-column loop returns and is the sequence, for \<open>j = 0, \<dots>, c - 1\<close> in this
  order, of the assignments \<open>dst[i + j * ldim] = get_value(i)\<close> for
  \<open>i = 0, \<dots>, r - 1\<close> in increasing order, each with \<open>get_value\<close> evaluated in the
  store of that moment, followed by exactly one \<^verbatim>\<open>next_column\<close> (\<open>column_pass\<close>, and
  \<open>loop_events\<close> for the effects alone); the evaluator has been advanced \<open>c\<close> times at
  the end.  If a column
  fits in the leading dimension and the evaluator does not read the cells that the loop
  writes, then afterwards \<open>dst[i + j * ldim]\<close> holds the value that \<open>get_value(i)\<close> of
  the evaluator advanced \<open>j\<close> times had when the loop started.  Consequently, for a dense expression, strided or not, and a destination
  of its shape whose cells are not cells of the expression, evaluation under per-column
  organisation leaves \<open>dst[i + j * ldim]\<close> equal to element \<open>(i, j)\<close> of the expression,
  which is read with the leading dimension of the expression.
\<close>

theorem percol_loop_writes_every_column:
  "(binary_ct_rows B = DynamicDim B \<or> 0 < binary_ct_rows B \<longrightarrow>
      (\<exists>ev' s'. percol_eval_impl B by_scalars gv nc ev dst (s :: 'a machine) =
            Inr (ev', s') \<and>
            (ev', s') =
              foldl (column_pass gv nc (percol_rows B dst) (lead_dim dst) (ptr_data dst))
                (ev, s) [0 ..< nat (ncolumns dst)] \<and>
            trace s' = trace s @ loop_events B per_column dst \<and>
            ev' = (nc ^^ nat (ncolumns dst)) ev \<and>
            (percol_rows B dst \<le> lead_dim dst \<and>
             percol_reads_off gv nc ev (percol_cells B dst) (percol_rows B dst)
               (ncolumns dst) (mem s) \<longrightarrow>
               (\<forall>i j. 0 \<le> i \<and> i < percol_rows B dst \<and> 0 \<le> j \<and> j < ncolumns dst \<longrightarrow>
                  mem s' (ptr_data dst + i + j * lead_dim dst) =
                    gv ((nc ^^ nat j) ev) (mem s) i))))
   \<and> (well_typed B E (Dense X :: 'a matrix_xpr) dst per_column \<and>
       dense_cells X \<inter> percol_cells B dst = {} \<longrightarrow>
        (\<exists>s'. evaluate B E (Dense X) dst
                 \<lparr>policy_org = per_column, policy_means = by_scalars\<rparr> s = Inr s' \<and>
              (\<forall>i j. 0 \<le> i \<and> i < nrows dst \<and> 0 \<le> j \<and> j < ncolumns dst \<longrightarrow>
                 mem s' (ptr_data dst + i + j * lead_dim dst) =
                   mem s (ptr_data X + i + j * lead_dim X))))"
proof (intro conjI impI)
  assume size: "binary_ct_rows B = DynamicDim B \<or> 0 < binary_ct_rows B"
  let ?r = "for_j gv nc (percol_rows B dst) (ncolumns dst) (lead_dim dst) 0 (ptr_data dst) ev s"
  have run: "percol_eval_impl B by_scalars gv nc ev dst s = Inr (fst ?r, snd ?r)"
    using size by (simp add: percol_eval_impl_scalars)
  have tr: "trace (snd ?r) = trace s @ loop_events B per_column dst"
    by (simp add: for_j_trace)
  have ev': "fst ?r = (nc ^^ nat (ncolumns dst)) ev"
    by (simp add: for_j_ev)
  have val: "mem (snd ?r) (ptr_data dst + i + j * lead_dim dst) = gv ((nc ^^ nat j) ev) (mem s) i"
    if fit: "percol_rows B dst \<le> lead_dim dst"
      and ro: "percol_reads_off gv nc ev (percol_cells B dst) (percol_rows B dst)
               (ncolumns dst) (mem s)"
      and ij: "0 \<le> i" "i < percol_rows B dst" "0 \<le> j" "j < ncolumns dst" for i j
  proof (rule percol_loop_values [OF ro _ agree_off_refl fit ij])
    fix i' j' assume "0 \<le> i'" "i' < percol_rows B dst" "0 \<le> j'" "j' < ncolumns dst"
    then show "ptr_data dst + i' + j' * lead_dim dst \<in> percol_cells B dst"
      unfolding percol_cells_def by blast
  qed
  show "\<exists>ev' s'. percol_eval_impl B by_scalars gv nc ev dst s = Inr (ev', s') \<and>
            (ev', s') =
              foldl (column_pass gv nc (percol_rows B dst) (lead_dim dst) (ptr_data dst))
                (ev, s) [0 ..< nat (ncolumns dst)] \<and>
            trace s' = trace s @ loop_events B per_column dst \<and>
            ev' = (nc ^^ nat (ncolumns dst)) ev \<and>
            (percol_rows B dst \<le> lead_dim dst \<and>
             percol_reads_off gv nc ev (percol_cells B dst) (percol_rows B dst)
               (ncolumns dst) (mem s) \<longrightarrow>
               (\<forall>i j. 0 \<le> i \<and> i < percol_rows B dst \<and> 0 \<le> j \<and> j < ncolumns dst \<longrightarrow>
                  mem s' (ptr_data dst + i + j * lead_dim dst) =
                    gv ((nc ^^ nat j) ev) (mem s) i))"
  proof (intro exI conjI impI allI)
    show "percol_eval_impl B by_scalars gv nc ev dst s = Inr (fst ?r, snd ?r)" by (rule run)
    show "(fst ?r, snd ?r) =
        foldl (column_pass gv nc (percol_rows B dst) (lead_dim dst) (ptr_data dst))
          (ev, s) [0 ..< nat (ncolumns dst)]"
      by (simp add: for_j_foldl)
    show "trace (snd ?r) = trace s @ loop_events B per_column dst" by (rule tr)
    show "fst ?r = (nc ^^ nat (ncolumns dst)) ev" by (rule ev')
    fix i j
    assume "percol_rows B dst \<le> lead_dim dst \<and>
        percol_reads_off gv nc ev (percol_cells B dst) (percol_rows B dst) (ncolumns dst) (mem s)"
      and "0 \<le> i \<and> i < percol_rows B dst \<and> 0 \<le> j \<and> j < ncolumns dst"
    then show "mem (snd ?r) (ptr_data dst + i + j * lead_dim dst) =
        gv ((nc ^^ nat j) ev) (mem s) i"
      by (intro val) simp_all
  qed
next
  assume a: "well_typed B E (Dense X :: 'a matrix_xpr) dst per_column \<and>
       dense_cells X \<inter> percol_cells B dst = {}"
  from a have wt: "well_typed B E (Dense X :: 'a matrix_xpr) dst per_column"
    by (rule conjunct1)
  from a have dj: "dense_cells X \<inter> percol_cells B dst = {}"
    by (rule conjunct2)
  from dj have ro: "xpr_reads_off (Dense X) (percol_cells B dst) (mem s)"
    by (rule dense_reads_off)
  from evaluate_percol_correct [OF wt ro] obtain s' where
    ev: "evaluate B E (Dense X) dst
           \<lparr>policy_org = per_column, policy_means = by_scalars\<rparr> s = Inr s'"
    and el: "\<And>i j. 0 \<le> i \<Longrightarrow> i < nrows dst \<Longrightarrow> 0 \<le> j \<Longrightarrow> j < ncolumns dst \<Longrightarrow>
        mem s' (ptr_data dst + i + j * lead_dim dst) = elem (Dense X) (mem s) i j"
    by blast
  from el have "\<forall>i j. 0 \<le> i \<and> i < nrows dst \<and> 0 \<le> j \<and> j < ncolumns dst \<longrightarrow>
      mem s' (ptr_data dst + i + j * lead_dim dst) = mem s (ptr_data X + i + j * lead_dim X)"
    by simp
  with ev
  show "\<exists>s'. evaluate B E (Dense X) dst
                 \<lparr>policy_org = per_column, policy_means = by_scalars\<rparr> s = Inr s' \<and>
              (\<forall>i j. 0 \<le> i \<and> i < nrows dst \<and> 0 \<le> j \<and> j < ncolumns dst \<longrightarrow>
                 mem s' (ptr_data dst + i + j * lead_dim dst) =
                   mem s (ptr_data X + i + j * lead_dim X))"
    by (intro exI [of _ s'] conjI)
qed

text \<open>
  C2 at a 2 by 2 block with leading dimension 3 at cell 10 and a 2 by 2 destination with
  leading dimension 2 at cell 0, in the store where cell \<open>a\<close> holds \<open>a\<close>.
\<close>

theorem percol_loop_writes_every_column_witness:
  "(binary_ct_rows (static_build 2 2) = DynamicDim (static_build 2 2) \<or>
      0 < binary_ct_rows (static_build 2 2))
   \<and> percol_rows (static_build 2 2) (dense_at 0 2 2 2) \<le> lead_dim (dense_at 0 2 2 2)
   \<and> percol_reads_off percol_get_value next_column (Dense_percol 3 10)
        (percol_cells (static_build 2 2) (dense_at 0 2 2 2))
        (percol_rows (static_build 2 2) (dense_at 0 2 2 2)) (ncolumns (dense_at 0 2 2 2))
        (mem counting_store)
   \<and> well_typed (static_build 2 2) (dense_type False) (Dense (dense_at 10 3 2 2) :: int matrix_xpr)
        (dense_at 0 2 2 2) per_column
   \<and> dense_cells (dense_at 10 3 2 2) \<inter> percol_cells (static_build 2 2) (dense_at 0 2 2 2) = {}
   \<and> (\<exists>ev' s'. percol_eval_impl (static_build 2 2) by_scalars percol_get_value next_column
               (Dense_percol 3 10) (dense_at 0 2 2 2) counting_store = Inr (ev', s') \<and>
            ev' = Dense_percol 3 16 \<and>
            trace s' = [Write 0, Write 1, Next_column, Write 2, Write 3, Next_column] \<and>
            mem s' 0 = 10 \<and> mem s' 1 = 11 \<and> mem s' 2 = 13 \<and> mem s' 3 = 14)
   \<and> (\<exists>s'. evaluate (static_build 2 2) (dense_type False) (Dense (dense_at 10 3 2 2))
               (dense_at 0 2 2 2) \<lparr>policy_org = per_column, policy_means = by_scalars\<rparr>
               counting_store = Inr s' \<and>
            mem s' 0 = 10 \<and> mem s' 1 = 11 \<and> mem s' 2 = 13 \<and> mem s' 3 = 14)"
proof -
  let ?B = "static_build 2 2" and ?d = "dense_at 0 2 2 2" and ?X = "dense_at 10 3 2 2"
  let ?ev = "Dense_percol 3 10 :: int percol_evaluator"
  let ?s = counting_store
  have size: "binary_ct_rows ?B = DynamicDim ?B \<or> 0 < binary_ct_rows ?B"
    by (simp add: static_build_def)
  have rows: "percol_rows ?B ?d = 2"
    by (simp add: percol_rows_def static_build_def)
  have fit: "percol_rows ?B ?d \<le> lead_dim ?d"
    unfolding rows by (simp add: dense_at_def)
  have cells: "percol_cells ?B ?d \<subseteq> {0 ..< 4}"
    unfolding percol_cells_def rows by (auto simp: dense_at_def)
  have ro: "percol_reads_off percol_get_value next_column ?ev (percol_cells ?B ?d)
      (percol_rows ?B ?d) (ncolumns ?d) (mem ?s)"
    unfolding percol_reads_off_def rows
  proof (intro allI impI)
    fix h :: "int store" and m :: nat and k :: int
    assume a: "agree_off (percol_cells ?B ?d) h (mem ?s) \<and> int m < ncolumns ?d \<and> 0 \<le> k \<and> k < 2"
    then have "10 + int m * 3 + k \<notin> percol_cells ?B ?d" using cells by auto
    with a have "h (10 + int m * 3 + k) = mem ?s (10 + int m * 3 + k)"
      by (simp add: agree_off_def)
    then show "percol_get_value ((next_column ^^ m) ?ev) h k =
        percol_get_value ((next_column ^^ m) ?ev) (mem ?s) k"
      by (simp add: funpow_next_column_dense)
  qed
  have wt: "well_typed ?B (dense_type False) (Dense ?X :: int matrix_xpr) ?d per_column"
    by (simp add: well_typed_def dense_type_def dense_at_def static_build_def percol_rows_def)
  have dj: "dense_cells ?X \<inter> percol_cells ?B ?d = {}"
    using cells by (auto simp: dense_cells_def dense_at_def)
  note th = percol_loop_writes_every_column
    [where B = ?B and gv = percol_get_value and nc = next_column and ev = ?ev and dst = ?d
       and s = ?s and E = "dense_type False" and X = ?X]
  from th size have "\<exists>ev' s'. percol_eval_impl ?B by_scalars percol_get_value next_column
        ?ev ?d ?s = Inr (ev', s') \<and>
      (ev', s') =
        foldl (column_pass percol_get_value next_column (percol_rows ?B ?d) (lead_dim ?d)
          (ptr_data ?d)) (?ev, ?s) [0 ..< nat (ncolumns ?d)] \<and>
      trace s' = trace ?s @ loop_events ?B per_column ?d \<and>
      ev' = (next_column ^^ nat (ncolumns ?d)) ?ev \<and>
      (percol_rows ?B ?d \<le> lead_dim ?d \<and>
       percol_reads_off percol_get_value next_column ?ev (percol_cells ?B ?d)
         (percol_rows ?B ?d) (ncolumns ?d) (mem ?s) \<longrightarrow>
         (\<forall>i j. 0 \<le> i \<and> i < percol_rows ?B ?d \<and> 0 \<le> j \<and> j < ncolumns ?d \<longrightarrow>
            mem s' (ptr_data ?d + i + j * lead_dim ?d) =
              percol_get_value ((next_column ^^ nat j) ?ev) (mem ?s) i))"
    by (elim conjE) (erule mp)
  with fit ro obtain ev1 s1 where
    r1: "percol_eval_impl ?B by_scalars percol_get_value next_column ?ev ?d ?s = Inr (ev1, s1)"
    and t1: "trace s1 = trace ?s @ loop_events ?B per_column ?d"
    and e1: "ev1 = (next_column ^^ nat (ncolumns ?d)) ?ev"
    and v1: "\<And>i j. 0 \<le> i \<Longrightarrow> i < 2 \<Longrightarrow> 0 \<le> j \<Longrightarrow> j < ncolumns ?d \<Longrightarrow>
        mem s1 (ptr_data ?d + i + j * lead_dim ?d) =
          percol_get_value ((next_column ^^ nat j) ?ev) (mem ?s) i"
    unfolding rows by blast
  have e1': "ev1 = Dense_percol 3 16"
    unfolding e1 by (simp add: funpow_next_column_dense dense_at_def)
  have t1': "trace s1 = [Write 0, Write 1, Next_column, Write 2, Write 3, Next_column]"
    unfolding t1 loop_events.simps rows
    by (simp add: column_events_def dense_at_def counting_store_def
        upt_conv_Cons numeral_2_eq_2 del: upt_Suc)
  have p1: "mem s1 0 = 10 \<and> mem s1 1 = 11 \<and> mem s1 2 = 13 \<and> mem s1 3 = 14"
    using v1 [of 0 0] v1 [of 1 0] v1 [of 0 1] v1 [of 1 1]
    by (simp add: dense_at_def counting_store_def funpow_next_column_dense)
  from th wt dj have "\<exists>s'. evaluate ?B (dense_type False) (Dense ?X) ?d
      \<lparr>policy_org = per_column, policy_means = by_scalars\<rparr> ?s = Inr s' \<and>
      (\<forall>i j. 0 \<le> i \<and> i < nrows ?d \<and> 0 \<le> j \<and> j < ncolumns ?d \<longrightarrow>
         mem s' (ptr_data ?d + i + j * lead_dim ?d) =
           mem ?s (ptr_data ?X + i + j * lead_dim ?X))"
    by (elim conjE) (erule mp, intro conjI)
  then obtain s2 where r2: "evaluate ?B (dense_type False) (Dense ?X) ?d
      \<lparr>policy_org = per_column, policy_means = by_scalars\<rparr> ?s = Inr s2"
    and v2: "\<And>i j. 0 \<le> i \<Longrightarrow> i < nrows ?d \<Longrightarrow> 0 \<le> j \<Longrightarrow> j < ncolumns ?d \<Longrightarrow>
         mem s2 (ptr_data ?d + i + j * lead_dim ?d) =
           mem ?s (ptr_data ?X + i + j * lead_dim ?X)"
    by blast
  have p2: "mem s2 0 = 10 \<and> mem s2 1 = 11 \<and> mem s2 2 = 13 \<and> mem s2 3 = 14"
    using v2 [of 0 0] v2 [of 1 0] v2 [of 0 1] v2 [of 1 1]
    by (simp add: dense_at_def counting_store_def)
  from size fit ro wt dj r1 e1' t1' p1 r2 p2 show ?thesis by blast
qed

text \<open>
  C2 without the condition on the cells.  A 1 by 2 source with leading dimension 2 in the
  cells 0 and 2 and a destination in the cells 2 and 4: the write of column 0 overwrites
  element \<open>(0, 1)\<close> of the source before it is read, so \<open>dst(0, 1)\<close> ends as 0 and not
  as 2.  With source and destination exchanged, \<open>dst(0, 0)\<close> ends as 2 and element
  \<open>(0, 0)\<close> of the expression as 4.
\<close>

theorem percol_overlap_counterexample:
  "well_typed dynamic_build (dense_type False) (Dense (dense_at 0 2 1 2) :: int matrix_xpr)
     (dense_at 2 2 1 2) per_column
   \<and> (case evaluate dynamic_build (dense_type False) (Dense (dense_at 0 2 1 2)) (dense_at 2 2 1 2)
             \<lparr>policy_org = per_column, policy_means = by_scalars\<rparr> counting_store of
         Inl e \<Rightarrow> False
       | Inr s' \<Rightarrow> mem s' (2 + 0 + 1 * 2) = 0 \<and> mem counting_store (0 + 0 + 1 * 2) = 2 \<and>
           mem s' (2 + 0 + 1 * 2) \<noteq> mem counting_store (0 + 0 + 1 * 2))
   \<and> well_typed dynamic_build (dense_type False) (Dense (dense_at 2 2 1 2) :: int matrix_xpr)
     (dense_at 0 2 1 2) per_column
   \<and> (case evaluate dynamic_build (dense_type False) (Dense (dense_at 2 2 1 2)) (dense_at 0 2 1 2)
             \<lparr>policy_org = per_column, policy_means = by_scalars\<rparr> counting_store of
         Inl e \<Rightarrow> False
       | Inr s' \<Rightarrow> mem s' (0 + 0 + 0 * 2) = 2 \<and> mem s' (2 + 0 + 0 * 2) = 4 \<and>
           mem s' (0 + 0 + 0 * 2) \<noteq> mem s' (2 + 0 + 0 * 2))"
  by (simp add: example_defs run_defs well_typed_def percol_rows_def)

subsection \<open>C3: the per-column cost\<close>

text \<open>
  C3.  For every expression type, the per-column cost of the generic map is zero when the
  type is dense and the cache cost, 1000, otherwise, plus the short-vector cost, 200,
  exactly when \<^verbatim>\<open>ct_rows<Expr>::value\<close> is below the threshold, 4.  The comparison is on
  the number itself: a type whose row count is dynamic has the marker \<^verbatim>\<open>DynamicDim\<close> there
  and receives the short-vector cost if and only if \<^verbatim>\<open>DynamicDim\<close> is below 4.
\<close>

theorem percol_cost_by_row_constant:
  "generic_vector_eval E per_column by_scalars =
     Inr \<lparr>evaluator_type =
            (if is_dense_mat E then dense_percol_evaluator else cached_percol_evaluator),
          cost = Some ((if is_dense_mat E then 0 else 1000) +
                       (if ct_rows E < 4 then 200 else 0)),
          normal_cost = Some (if is_dense_mat E then 0 else 1000),
          shortv_cost = Some (200 + (if is_dense_mat E then 0 else 1000))\<rparr>
   \<and> member ''cost'' cost
        (generic_vector_eval (E\<lparr>ct_rows := DynamicDim B\<rparr>) per_column by_scalars) =
       Inr ((if is_dense_mat E then 0 else 1000) + (if DynamicDim B < 4 then 200 else 0))
   \<and> SHORTVEC_LENGTH_THRESHOLD = 4 \<and> SHORTVEC_PERCOL_COST = 200
   \<and> VEC_EVAL_CACHE_COST = 1000"
  by (simp add: generic_percol_def percol_can_direct_def has_short_col_def
      percol_shortv_cost_def percol_normal_cost_def SHORTVEC_LENGTH_THRESHOLD_def
      SHORTVEC_PERCOL_COST_def VEC_EVAL_CACHE_COST_def member_def)

text \<open>
  C3 as a statement that a dynamic row count receives no short-vector cost: with
  \<^verbatim>\<open>DynamicDim\<close> equal to 0, a dense type with a dynamic row count has per-column cost
  200.
\<close>

theorem percol_cost_counterexample:
  "ct_rows \<lparr>is_const_matrix = False, is_dense_mat = True, ct_has_continuous_layout = True,
            ct_rows = 0, ct_cols = 0\<rparr> =
     DynamicDim \<lparr>LMAT_USE_STATIC_ASSERT = True, DynamicDim = 0, binary_ct_size = 0,
                 binary_ct_rows = 0, binary_ct_cols = 0\<rparr>
   \<and> generic_vector_eval
        \<lparr>is_const_matrix = False, is_dense_mat = True, ct_has_continuous_layout = True,
         ct_rows = 0, ct_cols = 0\<rparr> per_column by_scalars =
       Inr \<lparr>evaluator_type = dense_percol_evaluator, cost = Some 200,
            normal_cost = Some 0, shortv_cost = Some 200\<rparr>"
  by (simp add: generic_percol_def percol_can_direct_def has_short_col_def
      percol_shortv_cost_def percol_normal_cost_def SHORTVEC_LENGTH_THRESHOLD_def
      SHORTVEC_PERCOL_COST_def)

subsection \<open>C4: the default policy\<close>

text \<open>
  C4.  The selector compares \<^verbatim>\<open>vector_eval<Expr, as_linear_vec, by_scalars>::cost\<close> with
  \<^verbatim>\<open>vector_eval<Expr, per_column, by_scalars>::cost\<close>.  For a dense, contiguous type with
  two compile-time rows the second member does not exist: the forwarding specialisation
  for \<^verbatim>\<open>per_column\<close> declares \<^verbatim>\<open>normal_cost\<close> and \<^verbatim>\<open>shortv_cost\<close> only.  The default
  policy of that type does not build, so no organisation is selected, although the
  generic per-column cost, 200, exceeds the linear cost, 0.
\<close>

theorem default_policy_short_contiguous_fails:
  "vector_eval_default_policy
     \<lparr> is_const_matrix = False, is_dense_mat = True, ct_has_continuous_layout = True,
       ct_rows = 2, ct_cols = 2 \<rparr> = Inl (No_member ''cost'')
   \<and> member ''cost'' cost (generic_vector_eval
        \<lparr> is_const_matrix = False, is_dense_mat = True, ct_has_continuous_layout = True,
          ct_rows = 2, ct_cols = 2 \<rparr> per_column by_scalars) = Inr 200
   \<and> member ''cost'' cost (vector_eval
        \<lparr> is_const_matrix = False, is_dense_mat = True, ct_has_continuous_layout = True,
          ct_rows = 2, ct_cols = 2 \<rparr> as_linear_vec by_scalars) = Inr 0"
  by (simp add: vector_eval_default_policy_def vector_eval_def forward_linear_def
      forward_percol_def member_def generic_linear_def generic_percol_def
      linear_can_direct_def percol_can_direct_def has_short_col_def
      percol_shortv_cost_def percol_normal_cost_def SHORTVEC_LENGTH_THRESHOLD_def
      SHORTVEC_PERCOL_COST_def)

subsection \<open>C5: the linear map\<close>

text \<open>
  C5.  Under linear organisation the generic map has cost zero and the continuous (direct
  pointer) evaluator exactly when the expression type is dense and has continuous layout;
  otherwise the cost is the cache cost, 1000, and the evaluator is the cached linear one.
  The factory \<^verbatim>\<open>vector_eval\<close> forwards both members unchanged for every type that is not
  a \<^verbatim>\<open>const_matrix\<close>.  So a dense, contiguous expression type is never mapped to the
  cached evaluator.
\<close>

theorem linear_direct_iff_dense_continuous:
  "generic_vector_eval E as_linear_vec by_scalars =
     Inr \<lparr> evaluator_type =
             (if is_dense_mat E \<and> ct_has_continuous_layout E
              then continuous_linear_evaluator else cached_linear_evaluator),
           cost = Some (if is_dense_mat E \<and> ct_has_continuous_layout E then 0 else 1000),
           normal_cost = None, shortv_cost = None \<rparr>
   \<and> vector_eval (E\<lparr>is_const_matrix := False\<rparr>) as_linear_vec by_scalars =
       generic_vector_eval E as_linear_vec by_scalars
   \<and> VEC_EVAL_CACHE_COST = 1000"
proof -
  have g: "generic_vector_eval E as_linear_vec by_scalars = Inr (generic_linear E)"
    by simp
  have "vector_eval (E\<lparr>is_const_matrix := False\<rparr>) as_linear_vec by_scalars =
          Inr (generic_linear (E\<lparr>is_const_matrix := False\<rparr>))"
    by (rule vector_eval_linear_nonconst) simp
  then have f: "vector_eval (E\<lparr>is_const_matrix := False\<rparr>) as_linear_vec by_scalars =
          Inr (generic_linear E)"
    by (simp only: generic_linear_ignores_const)
  show ?thesis
    unfolding g f
    by (simp add: generic_linear_def linear_can_direct_def VEC_EVAL_CACHE_COST_def)
qed

subsection \<open>C6: linear organisation for a dense type without continuous layout\<close>

text \<open>
  C6.  Linear organisation for an expression type that is dense and has no continuous
  layout builds: the factory gives the cached linear evaluator at the cache cost, 1000;
  that evaluator is constructed from any expression by materialising it; and the entry
  point runs the linear loop on it.  What is rejected is the construction of
  \<^verbatim>\<open>continuous_linear_evaluator\<close> itself on a matrix of such a type, by its static
  assertion, and the factory never selects that class for such a type.
\<close>

theorem linear_noncontiguous_is_cached:
  "vector_eval (E\<lparr>is_const_matrix := False, is_dense_mat := True,
                  ct_has_continuous_layout := False\<rparr>) as_linear_vec by_scalars =
     Inr \<lparr>evaluator_type = cached_linear_evaluator, cost = Some 1000,
          normal_cost = None, shortv_cost = None\<rparr>
   \<and> construct_linear sa E cached_linear_evaluator src s =
       Inr (Cached_linear (materialize src (mem s)) 0, log_event Materialize s)
   \<and> evaluate (B\<lparr>binary_ct_size := DynamicDim B\<rparr>)
        (E\<lparr>is_const_matrix := False, is_dense_mat := True, ct_has_continuous_layout := False\<rparr>)
        src dst \<lparr>policy_org = as_linear_vec, policy_means = by_scalars\<rparr> s =
       Inr (linear_evaluate_dynamic
              (linear_get_value (Cached_linear (materialize src (mem s)) 0)) dst
              (log_event Materialize s))
   \<and> construct_linear True
        (E\<lparr>is_const_matrix := False, is_dense_mat := True, ct_has_continuous_layout := False\<rparr>)
        continuous_linear_evaluator (Dense X) s = Inl Static_assertion_failed"
  by (simp add: vector_eval_def forward_linear_def generic_linear_def linear_can_direct_def
      VEC_EVAL_CACHE_COST_def evaluate_def construct_linear_def linear_eval_impl_def)

text \<open>
  C6 as a statement that the request is rejected: for a dense 2 by 2 block with leading
  dimension 3, the factory and the entry point give no build failure.
\<close>

theorem linear_noncontiguous_counterexample:
  "vector_eval
     \<lparr>is_const_matrix = False, is_dense_mat = True, ct_has_continuous_layout = False,
      ct_rows = 2, ct_cols = 2\<rparr> as_linear_vec by_scalars =
     Inr \<lparr>evaluator_type = cached_linear_evaluator, cost = Some 1000,
          normal_cost = None, shortv_cost = None\<rparr>
   \<and> \<not> isl (evaluate
        \<lparr>LMAT_USE_STATIC_ASSERT = True, DynamicDim = 0, binary_ct_size = 4,
         binary_ct_rows = 2, binary_ct_cols = 2\<rparr>
        \<lparr>is_const_matrix = False, is_dense_mat = True, ct_has_continuous_layout = False,
         ct_rows = 2, ct_cols = 2\<rparr>
        (Dense \<lparr>ptr_data = 10, lead_dim = 3, nrows = 2, ncolumns = 2, nelems = 4\<rparr>)
        \<lparr>ptr_data = 0, lead_dim = 2, nrows = 2, ncolumns = 2, nelems = 4\<rparr>
        \<lparr>policy_org = as_linear_vec, policy_means = by_scalars\<rparr>
        \<lparr>mem = \<lambda>a. a, trace = []\<rparr>)"
  by (simp add: vector_eval_def forward_linear_def generic_linear_def linear_can_direct_def
      VEC_EVAL_CACHE_COST_def evaluate_def construct_linear_def linear_eval_impl_def)

subsection \<open>C7: constant matrices\<close>

text \<open>
  C7.  For every type that is a \<^verbatim>\<open>const_matrix\<close>, whatever its other traits, the factory
  gives the constant evaluator under both organisations, with cost zero (and zero
  \<^verbatim>\<open>normal_cost\<close> and \<^verbatim>\<open>shortv_cost\<close> per column).  For every well-typed call on a
  constant matrix, under either organisation and for every shape of the destination, the
  call returns, no temporary is materialised, and every element of the destination holds
  the constant.
\<close>

theorem const_matrix_fills_destination:
  "vector_eval (E\<lparr>is_const_matrix := True\<rparr>) as_linear_vec by_scalars =
     Inr \<lparr>evaluator_type = const_linear_evaluator, cost = Some 0,
          normal_cost = None, shortv_cost = None\<rparr>
   \<and> vector_eval (E\<lparr>is_const_matrix := True\<rparr>) per_column by_scalars =
     Inr \<lparr>evaluator_type = const_percol_evaluator, cost = Some 0,
          normal_cost = Some 0, shortv_cost = Some 0\<rparr>
   \<and> (well_typed B E (Const_matrix v r c) dst ogn \<longrightarrow>
        (\<exists>s'. evaluate B E (Const_matrix v r c) dst
                 \<lparr>policy_org = ogn, policy_means = by_scalars\<rparr> s = Inr s' \<and>
              trace s' = trace s @ loop_events B ogn dst \<and>
              (\<forall>i j. 0 \<le> i \<and> i < nrows dst \<and> 0 \<le> j \<and> j < ncolumns dst \<longrightarrow>
                 mem s' (ptr_data dst + i + j * lead_dim dst) = v)))"
proof -
  have run: "\<exists>s'. evaluate B E (Const_matrix v r c) dst
                 \<lparr>policy_org = ogn, policy_means = by_scalars\<rparr> s = Inr s' \<and>
              trace s' = trace s @ loop_events B ogn dst \<and>
              (\<forall>i j. 0 \<le> i \<and> i < nrows dst \<and> 0 \<le> j \<and> j < ncolumns dst \<longrightarrow>
                 mem s' (ptr_data dst + i + j * lead_dim dst) = v)"
    if wt: "well_typed B E (Const_matrix v r c) dst ogn"
  proof -
    from wt have c: "is_const_matrix E" by (simp add: well_typed_def)
    then have nc: "\<not> uses_cache E ogn" by (cases ogn) simp_all
    have "\<exists>s'. evaluate B E (Const_matrix v r c) dst
          \<lparr>policy_org = ogn, policy_means = by_scalars\<rparr> s = Inr s' \<and>
        trace s' = trace s @ (if uses_cache E ogn then [Materialize] else []) @
          loop_events B ogn dst \<and>
        (\<forall>i j. 0 \<le> i \<and> i < nrows dst \<and> 0 \<le> j \<and> j < ncolumns dst \<longrightarrow>
           mem s' (ptr_data dst + i + j * lead_dim dst) = elem (Const_matrix v r c) (mem s) i j) \<and>
        (\<forall>a. a \<notin> written_cells B ogn dst \<longrightarrow> mem s' a = mem s a)"
      using c by (intro evaluate_correct [OF wt]) simp
    then obtain s' where
      "evaluate B E (Const_matrix v r c) dst
          \<lparr>policy_org = ogn, policy_means = by_scalars\<rparr> s = Inr s'"
      "trace s' = trace s @ (if uses_cache E ogn then [Materialize] else []) @
          loop_events B ogn dst"
      "\<forall>i j. 0 \<le> i \<and> i < nrows dst \<and> 0 \<le> j \<and> j < ncolumns dst \<longrightarrow>
           mem s' (ptr_data dst + i + j * lead_dim dst) = elem (Const_matrix v r c) (mem s) i j"
      by blast
    with nc show ?thesis by simp
  qed
  have "vector_eval (E\<lparr>is_const_matrix := True\<rparr>) as_linear_vec by_scalars = Inr const_linear"
    and "vector_eval (E\<lparr>is_const_matrix := True\<rparr>) per_column by_scalars = Inr const_percol"
    by (simp_all add: vector_eval_def)
  with run show ?thesis by (simp add: const_linear_def const_percol_def)
qed

text \<open>C7 at the constant 7 and a 2 by 2 destination, under linear organisation.\<close>

theorem const_matrix_fills_destination_witness:
  "well_typed dynamic_build const_type (Const_matrix (7 :: int) 2 2) (dense_at 0 2 2 2)
     as_linear_vec
   \<and> (\<exists>s'. evaluate dynamic_build const_type (Const_matrix 7 2 2) (dense_at 0 2 2 2)
               \<lparr>policy_org = as_linear_vec, policy_means = by_scalars\<rparr> counting_store = Inr s' \<and>
            trace s' = [Write 0, Write 1, Write 2, Write 3] \<and>
            mem s' 0 = 7 \<and> mem s' 1 = 7 \<and> mem s' 2 = 7 \<and> mem s' 3 = 7)"
proof -
  let ?B = dynamic_build and ?d = "dense_at 0 2 2 2"
  have wt: "well_typed ?B const_type (Const_matrix (7 :: int) 2 2) ?d as_linear_vec"
    by (simp add: well_typed_def const_type_def dense_at_def dynamic_build_def linear_length_def)
  note th = const_matrix_fills_destination
    [where B = ?B and E = const_type and v = "7 :: int" and r = 2 and c = 2 and dst = ?d
       and ogn = as_linear_vec and s = counting_store]
  from th wt have "\<exists>s'. evaluate ?B const_type (Const_matrix 7 2 2) ?d
        \<lparr>policy_org = as_linear_vec, policy_means = by_scalars\<rparr> counting_store = Inr s' \<and>
      trace s' = trace counting_store @ loop_events ?B as_linear_vec ?d \<and>
      (\<forall>i j. 0 \<le> i \<and> i < nrows ?d \<and> 0 \<le> j \<and> j < ncolumns ?d \<longrightarrow>
         mem s' (ptr_data ?d + i + j * lead_dim ?d) = 7)"
    by (elim conjE) (erule mp)
  then obtain s' where r: "evaluate ?B const_type (Const_matrix 7 2 2) ?d
        \<lparr>policy_org = as_linear_vec, policy_means = by_scalars\<rparr> counting_store = Inr s'"
    and t: "trace s' = trace counting_store @ loop_events ?B as_linear_vec ?d"
    and v: "\<And>i j. 0 \<le> i \<Longrightarrow> i < nrows ?d \<Longrightarrow> 0 \<le> j \<Longrightarrow> j < ncolumns ?d \<Longrightarrow>
         mem s' (ptr_data ?d + i + j * lead_dim ?d) = 7"
    by blast
  have t': "trace s' = [Write 0, Write 1, Write 2, Write 3]"
    unfolding t loop_events.simps
    by (simp add: linear_length_def dynamic_build_def dense_at_def counting_store_def
        upt_conv_Cons eval_nat_numeral del: upt_Suc)
  have p: "mem s' 0 = 7 \<and> mem s' 1 = 7 \<and> mem s' 2 = 7 \<and> mem s' 3 = 7"
    using v [of 0 0] v [of 1 0] v [of 0 1] v [of 1 1] by (simp add: dense_at_def)
  from wt r t' p show ?thesis by blast
qed

subsection \<open>C8: the cached evaluators\<close>

text \<open>
  C8.  The constructors of the two cached evaluators materialise the expression, in the
  store of the moment of construction; \<^verbatim>\<open>get_value\<close> reads the temporary and nothing
  else, and \<^verbatim>\<open>next_column\<close> keeps it.  For every well-typed call on an expression type
  that is neither dense nor constant, under either organisation, the call returns; its
  effects are one materialisation followed by the writes of the loop, which contain no
  other materialisation; and every element \<open>(i, j)\<close> of the destination holds the value
  that element \<open>(i, j)\<close> of the expression had when the call started.
\<close>

theorem cached_evaluator_materializes_once:
  "construct_linear sa E cached_linear_evaluator src s =
     Inr (Cached_linear (materialize src (mem s)) 0, log_event Materialize s)
   \<and> construct_percol cached_percol_evaluator src s =
     Inr (Cached_percol (materialize src (mem s)) (xpr_nrows src) 0, log_event Materialize s)
   \<and> linear_get_value (Cached_linear cache p) h k = cache ! nat (p + k)
   \<and> percol_get_value (Cached_percol cache ld p) h k = cache ! nat (p + k)
   \<and> next_column (Cached_percol cache ld p) = Cached_percol cache ld (p + ld)
   \<and> (well_typed B E src dst ogn \<and> \<not> is_dense_mat E \<and> \<not> is_const_matrix E \<longrightarrow>
        (\<exists>s'. evaluate B E src dst \<lparr>policy_org = ogn, policy_means = by_scalars\<rparr> s = Inr s' \<and>
              trace s' = trace s @ Materialize # loop_events B ogn dst \<and>
              Materialize \<notin> set (loop_events B ogn dst) \<and>
              (\<forall>i j. 0 \<le> i \<and> i < nrows dst \<and> 0 \<le> j \<and> j < ncolumns dst \<longrightarrow>
                 mem s' (ptr_data dst + i + j * lead_dim dst) = elem src (mem s) i j)))"
proof -
  have run: "\<exists>s'. evaluate B E src dst \<lparr>policy_org = ogn, policy_means = by_scalars\<rparr> s = Inr s' \<and>
              trace s' = trace s @ Materialize # loop_events B ogn dst \<and>
              Materialize \<notin> set (loop_events B ogn dst) \<and>
              (\<forall>i j. 0 \<le> i \<and> i < nrows dst \<and> 0 \<le> j \<and> j < ncolumns dst \<longrightarrow>
                 mem s' (ptr_data dst + i + j * lead_dim dst) = elem src (mem s) i j)"
    if wt: "well_typed B E src dst ogn" and nd: "\<not> is_dense_mat E" and nc: "\<not> is_const_matrix E"
  proof -
    from nd nc have uc: "uses_cache E ogn"
      by (cases ogn) (simp_all add: linear_can_direct_def percol_can_direct_def)
    have "\<exists>s'. evaluate B E src dst \<lparr>policy_org = ogn, policy_means = by_scalars\<rparr> s = Inr s' \<and>
        trace s' = trace s @ (if uses_cache E ogn then [Materialize] else []) @
          loop_events B ogn dst \<and>
        (\<forall>i j. 0 \<le> i \<and> i < nrows dst \<and> 0 \<le> j \<and> j < ncolumns dst \<longrightarrow>
           mem s' (ptr_data dst + i + j * lead_dim dst) = elem src (mem s) i j) \<and>
        (\<forall>a. a \<notin> written_cells B ogn dst \<longrightarrow> mem s' a = mem s a)"
      using uc by (intro evaluate_correct [OF wt]) simp
    then obtain s' where
      "evaluate B E src dst \<lparr>policy_org = ogn, policy_means = by_scalars\<rparr> s = Inr s'"
      "trace s' = trace s @ (if uses_cache E ogn then [Materialize] else []) @
          loop_events B ogn dst"
      "\<forall>i j. 0 \<le> i \<and> i < nrows dst \<and> 0 \<le> j \<and> j < ncolumns dst \<longrightarrow>
           mem s' (ptr_data dst + i + j * lead_dim dst) = elem src (mem s) i j"
      by blast
    with uc Materialize_notin_loop_events [of B ogn dst] show ?thesis by simp
  qed
  then show ?thesis
    by (simp add: construct_linear_def construct_percol_def)
qed

text \<open>
  C8 at a 2 by 2 expression whose element \<open>(i, j)\<close> is the content of cell 100 plus
  \<open>i + 10 j\<close>, under per-column organisation.
\<close>

theorem cached_evaluator_materializes_once_witness:
  "well_typed dynamic_build computed_type (Xpr (\<lambda>h i j. h 100 + i + 10 * j) 2 2)
     (dense_at 0 2 2 2) per_column
   \<and> \<not> is_dense_mat computed_type \<and> \<not> is_const_matrix computed_type
   \<and> (\<exists>s'. evaluate dynamic_build computed_type (Xpr (\<lambda>h i j. h 100 + i + 10 * j) 2 2)
               (dense_at 0 2 2 2) \<lparr>policy_org = per_column, policy_means = by_scalars\<rparr>
               counting_store = Inr s' \<and>
            trace s' = [Materialize, Write 0, Write 1, Next_column, Write 2, Write 3, Next_column] \<and>
            mem s' 0 = 100 \<and> mem s' 1 = 101 \<and> mem s' 2 = 110 \<and> mem s' 3 = 111)"
proof -
  let ?B = dynamic_build and ?d = "dense_at 0 2 2 2"
  let ?X = "Xpr (\<lambda>h i j. h 100 + i + 10 * j) 2 2 :: int matrix_xpr"
  have wt: "well_typed ?B computed_type ?X ?d per_column"
    by (simp add: well_typed_def computed_type_def dense_at_def dynamic_build_def percol_rows_def)
  have nd: "\<not> is_dense_mat computed_type" and nc: "\<not> is_const_matrix computed_type"
    by (simp_all add: computed_type_def)
  note th = cached_evaluator_materializes_once
    [where B = ?B and E = computed_type and src = ?X and dst = ?d and ogn = per_column
       and s = counting_store]
  note imp = th [THEN conjunct2, THEN conjunct2, THEN conjunct2, THEN conjunct2, THEN conjunct2]
  have "\<exists>s'. evaluate ?B computed_type ?X ?d
        \<lparr>policy_org = per_column, policy_means = by_scalars\<rparr> counting_store = Inr s' \<and>
      trace s' = trace counting_store @ Materialize # loop_events ?B per_column ?d \<and>
      Materialize \<notin> set (loop_events ?B per_column ?d) \<and>
      (\<forall>i j. 0 \<le> i \<and> i < nrows ?d \<and> 0 \<le> j \<and> j < ncolumns ?d \<longrightarrow>
         mem s' (ptr_data ?d + i + j * lead_dim ?d) = elem ?X (mem counting_store) i j)"
    by (rule mp [OF imp]) (intro conjI wt nd nc)
  then obtain s' where r: "evaluate ?B computed_type ?X ?d
        \<lparr>policy_org = per_column, policy_means = by_scalars\<rparr> counting_store = Inr s'"
    and t: "trace s' = trace counting_store @ Materialize # loop_events ?B per_column ?d"
    and v: "\<And>i j. 0 \<le> i \<Longrightarrow> i < nrows ?d \<Longrightarrow> 0 \<le> j \<Longrightarrow> j < ncolumns ?d \<Longrightarrow>
         mem s' (ptr_data ?d + i + j * lead_dim ?d) = elem ?X (mem counting_store) i j"
    by blast
  have t': "trace s' =
      [Materialize, Write 0, Write 1, Next_column, Write 2, Write 3, Next_column]"
    unfolding t loop_events.simps
    by (simp add: percol_rows_def dynamic_build_def dense_at_def counting_store_def
        column_events_def upt_conv_Cons eval_nat_numeral del: upt_Suc)
  have p: "mem s' 0 = 100 \<and> mem s' 1 = 101 \<and> mem s' 2 = 110 \<and> mem s' 3 = 111"
    using v [of 0 0] v [of 1 0] v [of 0 1] v [of 1 1]
    by (simp add: dense_at_def counting_store_def)
  from wt nd nc r t' p show ?thesis by blast
qed

subsection \<open>C9: evaluating twice\<close>

text \<open>
  C9.  For every well-typed call, under either organisation, on an expression that does
  not read the cells the call writes: the call returns, a second call with the same
  expression and destination returns, and the store after the second call is the store
  after the first.  The evaluator is a local object of \<^verbatim>\<open>evaluate\<close>: a call returns the
  store and nothing else.
\<close>

theorem evaluate_twice_same_contents:
  assumes wt: "well_typed B E src dst ogn"
    and ro: "xpr_reads_off src (written_cells B ogn dst) (mem s)"
  shows "\<exists>s1 s2.
     evaluate B E src dst \<lparr>policy_org = ogn, policy_means = by_scalars\<rparr> s = Inr s1 \<and>
     evaluate B E src dst \<lparr>policy_org = ogn, policy_means = by_scalars\<rparr> s1 = Inr s2 \<and>
     mem s2 = mem s1"
proof -
  let ?W = "written_cells B ogn dst"
  let ?pol = "\<lparr>policy_org = ogn, policy_means = by_scalars\<rparr>"
  from evaluate_correct [OF wt ro] obtain s1 where
    e1: "evaluate B E src dst ?pol s = Inr s1"
    and in1: "\<And>i j. 0 \<le> i \<Longrightarrow> i < nrows dst \<Longrightarrow> 0 \<le> j \<Longrightarrow> j < ncolumns dst \<Longrightarrow>
        mem s1 (ptr_data dst + i + j * lead_dim dst) = elem src (mem s) i j"
    and out1: "\<And>a. a \<notin> ?W \<Longrightarrow> mem s1 a = mem s a"
    by blast
  from out1 have ag: "agree_off ?W (mem s1) (mem s)" by (simp add: agree_off_def)
  have ro1: "xpr_reads_off src ?W (mem s1)" using ro ag by (rule xpr_reads_off_agree)
  from evaluate_correct [OF wt ro1] obtain s2 where
    e2: "evaluate B E src dst ?pol s1 = Inr s2"
    and in2: "\<And>i j. 0 \<le> i \<Longrightarrow> i < nrows dst \<Longrightarrow> 0 \<le> j \<Longrightarrow> j < ncolumns dst \<Longrightarrow>
        mem s2 (ptr_data dst + i + j * lead_dim dst) = elem src (mem s1) i j"
    and out2: "\<And>a. a \<notin> ?W \<Longrightarrow> mem s2 a = mem s1 a"
    by blast
  from wt have shape: "xpr_nrows src = nrows dst" "xpr_ncolumns src = ncolumns dst"
    by (simp_all add: well_typed_def)
  have "mem s2 a = mem s1 a" for a
  proof (cases "a \<in> ?W")
    case True
    from written_cell_is_element [OF wt True] obtain i j where
      ij: "0 \<le> i" "i < nrows dst" "0 \<le> j" "j < ncolumns dst"
      and a: "a = ptr_data dst + i + j * lead_dim dst" by blast
    have "elem src (mem s1) i j = elem src (mem s) i j"
      using ro ag ij unfolding xpr_reads_off_def shape by blast
    with in1 [OF ij] in2 [OF ij] a show ?thesis by simp
  next
    case False
    then show ?thesis by (rule out2)
  qed
  then have "mem s2 = mem s1" by (rule ext)
  with e1 e2 show ?thesis by blast
qed

text \<open>C9 at a 2 by 2 source in the cells 10 to 13 and a destination in the cells 0 to 3.\<close>

theorem evaluate_twice_same_contents_witness:
  "well_typed dynamic_build (dense_type True) (Dense (dense_at 10 2 2 2) :: int matrix_xpr)
     (dense_at 0 2 2 2) as_linear_vec
   \<and> xpr_reads_off (Dense (dense_at 10 2 2 2))
        (written_cells dynamic_build as_linear_vec (dense_at 0 2 2 2)) (mem counting_store)
   \<and> (\<exists>s1 s2.
        evaluate dynamic_build (dense_type True) (Dense (dense_at 10 2 2 2)) (dense_at 0 2 2 2)
          \<lparr>policy_org = as_linear_vec, policy_means = by_scalars\<rparr> counting_store = Inr s1 \<and>
        evaluate dynamic_build (dense_type True) (Dense (dense_at 10 2 2 2)) (dense_at 0 2 2 2)
          \<lparr>policy_org = as_linear_vec, policy_means = by_scalars\<rparr> s1 = Inr s2 \<and>
        mem s2 = mem s1)"
proof -
  let ?B = dynamic_build and ?d = "dense_at 0 2 2 2" and ?X = "dense_at 10 2 2 2"
  have wt: "well_typed ?B (dense_type True) (Dense ?X :: int matrix_xpr) ?d as_linear_vec"
    by (simp add: well_typed_def dense_type_def dense_at_def dynamic_build_def linear_length_def)
  have cells: "written_cells ?B as_linear_vec ?d = {0 ..< 4}"
    by (simp add: linear_cells_def linear_length_def dynamic_build_def dense_at_def)
  have "dense_cells ?X \<inter> written_cells ?B as_linear_vec ?d = {}"
    unfolding cells by (auto simp: dense_cells_def dense_at_def)
  then have ro: "xpr_reads_off (Dense ?X) (written_cells ?B as_linear_vec ?d) (mem counting_store)"
    by (rule dense_reads_off)
  from wt ro evaluate_twice_same_contents [OF wt ro] show ?thesis by blast
qed

text \<open>
  C9 without the condition on the cells.  A 2 by 1 source in the cells 1 and 2 and a
  destination in the cells 0 and 1, in the store where cell \<open>a\<close> holds \<open>a\<close>: the
  destination is \<open>[1, 2]\<close> after the first call and \<open>[2, 2]\<close> after the second.
\<close>

theorem evaluate_twice_counterexample:
  "well_typed dynamic_build (dense_type True) (Dense (dense_at 1 2 2 1) :: int matrix_xpr)
     (dense_at 0 2 2 1) as_linear_vec
   \<and> (case evaluate dynamic_build (dense_type True) (Dense (dense_at 1 2 2 1)) (dense_at 0 2 2 1)
             \<lparr>policy_org = as_linear_vec, policy_means = by_scalars\<rparr> counting_store of
         Inl e \<Rightarrow> False
       | Inr s1 \<Rightarrow>
          (case evaluate dynamic_build (dense_type True) (Dense (dense_at 1 2 2 1))
                  (dense_at 0 2 2 1)
                  \<lparr>policy_org = as_linear_vec, policy_means = by_scalars\<rparr> s1 of
             Inl e \<Rightarrow> False
           | Inr s2 \<Rightarrow> mem s1 0 = 1 \<and> mem s1 1 = 2 \<and> mem s2 0 = 2 \<and> mem s2 1 = 2 \<and>
               mem s2 0 \<noteq> mem s1 0))"
  by (simp add: example_defs run_defs well_typed_def linear_length_def)

subsection \<open>C10: the column cursor of the per-column evaluators\<close>

text \<open>
  C10.  The dense per-column evaluator is constructed from the wrapped matrix alone, with
  its data pointer and its leading dimension.  After \<open>k\<close> calls of \<^verbatim>\<open>next_column\<close>,
  \<^verbatim>\<open>get_value(i)\<close> returns the cell at offset \<open>i + k * ldim\<close> from that data pointer,
  which is element \<open>(i, k)\<close> of the wrapped matrix.  The cached per-column evaluator
  starts at offset 0 of its temporary with the leading dimension of the temporary; after
  \<open>k\<close> calls of \<^verbatim>\<open>next_column\<close>, \<^verbatim>\<open>get_value(i)\<close> returns the cell at offset
  \<open>i + k * ldim\<close> of the temporary, which is element \<open>(i, k)\<close> of the expression for every
  row \<open>i\<close> and column \<open>k\<close> of it.  The leading dimension of the destination appears
  nowhere.
\<close>

theorem percol_evaluator_reads_column:
  "construct_percol dense_percol_evaluator (Dense X) s =
     Inr (Dense_percol (lead_dim X) (ptr_data X), s)
   \<and> percol_get_value ((next_column ^^ k) (Dense_percol (lead_dim X) (ptr_data X))) h i =
       h (ptr_data X + i + int k * lead_dim X)
   \<and> h (ptr_data X + i + int k * lead_dim X) = elem (Dense X) h i (int k)
   \<and> construct_percol cached_percol_evaluator src s =
       Inr (Cached_percol (materialize src (mem s)) (xpr_nrows src) 0, log_event Materialize s)
   \<and> percol_get_value ((next_column ^^ k) (Cached_percol cache ld 0)) h i =
       cache ! nat (i + int k * ld)
   \<and> (0 \<le> i \<and> i < xpr_nrows src \<and> int k < xpr_ncolumns src \<longrightarrow>
       materialize src (mem s) ! nat (i + int k * xpr_nrows src) = elem src (mem s) i (int k))"
proof -
  have "materialize src (mem s) ! nat (i + int k * xpr_nrows src) = elem src (mem s) i (int k)"
    if "0 \<le> i" "i < xpr_nrows src" "int k < xpr_ncolumns src"
    using that by (intro materialize_elem) auto
  then show ?thesis
    by (simp add: construct_percol_def funpow_next_column_dense funpow_next_column_cached
        algebra_simps)
qed

text \<open>C10 at a 2 by 2 expression whose element \<open>(i, j)\<close> is \<open>i + 10 j\<close>, row 1, column 1.\<close>

theorem percol_evaluator_reads_column_witness:
  "(0::int) \<le> 1 \<and> 1 < xpr_nrows (Xpr (\<lambda>h i j. i + 10 * j) 2 2) \<and>
   int 1 < xpr_ncolumns (Xpr (\<lambda>h i j. i + 10 * j) 2 2) \<and>
   percol_get_value ((next_column ^^ 1)
     (Cached_percol (materialize (Xpr (\<lambda>h i j. i + 10 * j) 2 2) (\<lambda>a. 0)) 2 0)) (\<lambda>a. 0) 1 = 11"
  using percol_evaluator_reads_column
    [where X = "\<lparr>ptr_data = 0, lead_dim = 2, nrows = 2, ncolumns = 2, nelems = 4\<rparr>"
       and s = "\<lparr>mem = \<lambda>a. 0, trace = []\<rparr>" and k = 1 and h = "\<lambda>a. 0" and i = 1
       and src = "Xpr (\<lambda>h i j. i + 10 * j) 2 2"
       and cache = "materialize (Xpr (\<lambda>h i j. i + 10 * j) 2 2) (\<lambda>a. 0)" and ld = 2]
  by simp

section \<open>Further properties\<close>

subsection \<open>The default policy on a constant matrix\<close>

text \<open>
  For every type that is a \<^verbatim>\<open>const_matrix\<close> the default policy builds: both costs are
  0, the comparison \<^verbatim>\<open>linear_cost <= percol_cost\<close> holds, and linear organisation with
  \<^verbatim>\<open>by_scalars\<close> is selected.
\<close>

theorem default_policy_const_matrix:
  "vector_eval_default_policy (E\<lparr>is_const_matrix := True\<rparr>) =
     Inr \<lparr> linear_cost = 0, percol_cost = 0, choose_linear = True,
           policy_type = \<lparr> policy_org = as_linear_vec, policy_means = by_scalars \<rparr> \<rparr>"
  by (simp add: vector_eval_default_policy_def vector_eval_def member_def
      const_linear_def const_percol_def)

subsection \<open>The default policy on every other type\<close>

text \<open>
  For every type that is not a \<^verbatim>\<open>const_matrix\<close> the default policy does not build:
  \<^verbatim>\<open>vector_eval<Expr, per_column, by_scalars>\<close> has no member \<^verbatim>\<open>cost\<close>.
\<close>

theorem default_policy_other_types:
  "vector_eval_default_policy (E\<lparr>is_const_matrix := False\<rparr>) = Inl (No_member ''cost'')"
  by (simp add: vector_eval_default_policy_def vector_eval_def forward_linear_def
      forward_percol_def member_def generic_linear_def generic_percol_def)

subsection \<open>The evaluator class fits the organisation\<close>

text \<open>
  For every type and either organisation, the class that \<^verbatim>\<open>vector_eval\<close> selects for
  \<^verbatim>\<open>by_scalars\<close> derives from the interface that the loop of that organisation takes:
  \<^verbatim>\<open>ILinearVectorEvaluator\<close> for \<^verbatim>\<open>as_linear_vec\<close>, \<^verbatim>\<open>IPerColVectorEvaluator\<close> for
  \<^verbatim>\<open>per_column\<close>.
\<close>

theorem evaluator_class_fits_organisation:
  "(case vector_eval E ogn by_scalars of
      Inl e \<Rightarrow> False
    | Inr ve \<Rightarrow>
        (case ogn of
           as_linear_vec \<Rightarrow> is_linear_vector_evaluator (evaluator_type ve)
         | per_column \<Rightarrow> is_percol_vector_evaluator (evaluator_type ve)))"
  by (cases ogn)
    (simp_all add: vector_eval_def forward_linear_def forward_percol_def generic_linear_def
      generic_percol_def const_linear_def const_percol_def)

subsection \<open>The comparison of the generic costs\<close>

text \<open>
  The generic linear cost is at most the generic per-column cost unless the type is dense
  and has no continuous layout: the short-vector cost never changes the outcome of the
  comparison \<^verbatim>\<open>linear_cost <= percol_cost\<close>.
\<close>

theorem generic_costs_compared:
  "(case (cost (generic_linear E), cost (generic_percol E)) of
      (Some lc, Some pc) \<Rightarrow> (lc \<le> pc) = (ct_has_continuous_layout E \<or> \<not> is_dense_mat E)
    | _ \<Rightarrow> False)"
  by (simp add: generic_linear_def generic_percol_def linear_can_direct_def
      percol_can_direct_def percol_shortv_cost_def percol_normal_cost_def
      VEC_EVAL_CACHE_COST_def SHORTVEC_PERCOL_COST_def)

subsection \<open>The two fixed-policy entry points on a column of four\<close>

text \<open>
  The 4 by 1 source \<open>[1, 2, 3, 4]\<close> in the cells 10 to 13 and a 4 by 1 destination in the
  cells 0 to 3: \<^verbatim>\<open>linear_by_scalars_evaluate\<close> and \<^verbatim>\<open>percol_by_scalars_evaluate\<close> both
  leave \<open>[1, 2, 3, 4]\<close> in the destination, the first by four writes, the second by four
  writes and one \<^verbatim>\<open>next_column\<close>.
\<close>

theorem column_of_four:
  "(case linear_by_scalars_evaluate (static_build 4 1) (dense_type True)
           (Dense (dense_at 10 4 4 1)) (dense_at 0 4 4 1) one_to_four of
      Inl e \<Rightarrow> False
    | Inr s' \<Rightarrow> mem s' 0 = 1 \<and> mem s' 1 = 2 \<and> mem s' 2 = 3 \<and> mem s' 3 = 4 \<and>
        trace s' = [Write 0, Write 1, Write 2, Write 3])
   \<and> (case percol_by_scalars_evaluate (static_build 4 1) (dense_type True)
           (Dense (dense_at 10 4 4 1)) (dense_at 0 4 4 1) one_to_four of
      Inl e \<Rightarrow> False
    | Inr s' \<Rightarrow> mem s' 0 = 1 \<and> mem s' 1 = 2 \<and> mem s' 2 = 3 \<and> mem s' 3 = 4 \<and>
        trace s' = [Write 0, Write 1, Write 2, Write 3, Next_column])"
  by (simp add: linear_by_scalars_evaluate_def percol_by_scalars_evaluate_def
      static_build_def dense_type_def dense_at_def one_to_four_def run_defs)

end
